theory Spec2Isabelle
  imports Complex_Main
begin

section \<open>SqueezeNet v1.0 as a composable Keras model\<close>

text \<open>
  The development embeds \<^verbatim>\<open>zoo/squeezenet/squeezenet_c.py\<close>: one class,
  \<^verbatim>\<open>SqueezeNet(Composable)\<close>, whose constructor assembles a layer graph from
  \<^verbatim>\<open>tensorflow.keras\<close> layers in the order stem, learner, classifier.

  Three things meet in that file and are kept apart here:
  \<^item> the Python of the file itself: keyword dictionaries (\<^verbatim>\<open>**metaparameters\<close>),
    the list of groups that \<^verbatim>\<open>learner\<close> pops, indexing and key lookup, with the
    exceptions Python raises for them;
  \<^item> the layers of \<^verbatim>\<open>tensorflow.keras\<close>, an external library: each layer call
    either raises inside the library or returns a symbolic tensor that knows the layer
    that produced it, that layer's inputs, and its shape;
  \<^item> the base class \<^verbatim>\<open>Composable\<close> of \<^verbatim>\<open>models_c.py\<close>, a file of the same
    repository that is not part of the sources at hand.
\<close>

subsection \<open>Python values, keyword dictionaries, exceptions\<close>

datatype regularizer = l1 real | l2 real | l1_l2 real real

text \<open>A block is a dictionary such as \<^verbatim>\<open>{ 'n_filters' : 16 }\<close>; a group is a list of blocks.\<close>

type_synonym block = "(string \<times> int) list"
type_synonym group = "block list"

text \<open>
  The list of groups is a mutable object: \<^verbatim>\<open>learner\<close> pops it, and the same object may be
  the class attribute \<^verbatim>\<open>SqueezeNet.groups\<close>. It lives in a store and is passed by reference.
\<close>

type_synonym ref = nat
type_synonym heap = "ref \<Rightarrow> group list"

text \<open>
  The values this file handles. \<open>VRef\<close> is a list object in the store, whose items are
  groups. \<open>VBlocks\<close> is a list of dictionaries taken by value: a group, as \<^verbatim>\<open>learner\<close>
  hands it to \<^verbatim>\<open>group\<close> under \<^verbatim>\<open>blocks\<close>, or a flat list of dictionaries that a caller
  gave for \<^verbatim>\<open>groups\<close>. \<open>VDict\<close> is one dictionary.
\<close>

datatype pyval =
    VNone
  | VInt int
  | VFloat real
  | VStr string
  | VReg regularizer
  | VRef ref
  | VBlocks group
  | VDict block
  | VTuple "pyval list"

datatype error =
    IndexError
  | KeyError pyval
  | TypeError
  | AttributeError
  | FrameworkError

text \<open>
  \<open>FrameworkError\<close> stands for every exception raised from inside
  \<^verbatim>\<open>tensorflow.keras\<close>; the other four are raised by the Python of this file
  (an empty list popped or indexed, a missing dictionary key, a keyword passed twice or
  a value that cannot be iterated or unpacked, a missing attribute).
\<close>

type_synonym kwargs = "(string \<times> pyval) list"

definition ebind :: "error + 'a \<Rightarrow> ('a \<Rightarrow> error + 'b) \<Rightarrow> error + 'b" where
  "ebind m f = (case m of Inl e \<Rightarrow> Inl e | Inr x \<Rightarrow> f x)"

definition keys :: "('k \<times> 'v) list \<Rightarrow> 'k list" where
  "keys d = map fst d"

text \<open>\<^verbatim>\<open>d[k]\<close>: the value, or \<^verbatim>\<open>KeyError\<close>.\<close>

definition py_getitem :: "kwargs \<Rightarrow> string \<Rightarrow> error + pyval" where
  "py_getitem d k = (case map_of d k of None \<Rightarrow> Inl (KeyError (VStr k)) | Some v \<Rightarrow> Inr v)"

text \<open>
  The keyword arguments of one call, written in the source as explicit keywords and
  \<^verbatim>\<open>**\<close>-unpacked dictionaries: they are merged left to right, and a keyword that
  occurs twice is a \<^verbatim>\<open>TypeError\<close> (got multiple values for keyword argument).
\<close>

definition merge_kwargs :: "kwargs list \<Rightarrow> error + kwargs" where
  "merge_kwargs ds = (if distinct (keys (concat ds)) then Inr (concat ds) else Inl TypeError)"

text \<open>
  Binding the keywords of a call to a signature \<^verbatim>\<open>def f(p1, .., **metaparameters)\<close> whose
  parameters \<open>ps\<close> were given positionally: a keyword that names one of them is a
  \<^verbatim>\<open>TypeError\<close> (got multiple values for argument).
\<close>

definition bind_positional :: "string list \<Rightarrow> kwargs \<Rightarrow> error + kwargs" where
  "bind_positional ps kw = (if \<exists>k \<in> set (keys kw). k \<in> set ps then Inl TypeError else Inr kw)"

text \<open>A parameter with default \<^verbatim>\<open>None\<close>, as \<^verbatim>\<open>init_weights=None\<close>.\<close>

definition keyword_or_None :: "kwargs \<Rightarrow> string \<Rightarrow> pyval" where
  "keyword_or_None kw k = (case map_of kw k of None \<Rightarrow> VNone | Some v \<Rightarrow> v)"

definition without_key :: "string \<Rightarrow> kwargs \<Rightarrow> kwargs" where
  "without_key k kw = filter (\<lambda>p. fst p \<noteq> k) kw"

definition block_kwargs :: "block \<Rightarrow> kwargs" where
  "block_kwargs b = map (\<lambda>p. (fst p, VInt (snd p))) b"

text \<open>\<^verbatim>\<open>n_filters * 4\<close> on the values the model knows.\<close>

definition py_mul :: "pyval \<Rightarrow> int \<Rightarrow> error + pyval" where
  "py_mul v k = (case v of
       VInt n \<Rightarrow> Inr (VInt (n * k))
     | VFloat r \<Rightarrow> Inr (VFloat (r * of_int k))
     | VStr s \<Rightarrow> Inr (VStr (concat (replicate (nat k) s)))
     | VTuple xs \<Rightarrow> Inr (VTuple (concat (replicate (nat k) xs)))
     | _ \<Rightarrow> Inl TypeError)"

text \<open>\<^verbatim>\<open>groups.pop()\<close>: removes and returns the last element; \<^verbatim>\<open>IndexError\<close> on an empty list.\<close>

definition list_pop :: "heap \<Rightarrow> ref \<Rightarrow> heap \<times> (error + group)" where
  "list_pop h r = (case h r of
       [] \<Rightarrow> (h, Inl IndexError)
     | g # gs \<Rightarrow> (h(r := butlast (g # gs)), Inr (last (g # gs))))"

text \<open>\<^verbatim>\<open>last[0]\<close>.\<close>

definition first_item :: "'a list \<Rightarrow> error + 'a" where
  "first_item xs = (case xs of [] \<Rightarrow> Inl IndexError | x # _ \<Rightarrow> Inr x)"

subsection \<open>The layers of tensorflow.keras\<close>

text \<open>
  The library is not part of the repository. Its layers are modelled by their documented
  shape rules (channels last, the batch axis left out of every shape) and by the argument
  checks that make a layer call raise. Where releases of the library differ in how much
  they check (a filter count of zero, a dropout rate outside \<open>[0, 1)\<close>), the model takes
  the stricter release, so that a construction that succeeds here succeeds in each of them.
\<close>

datatype padding = Same | Valid

datatype layer =
    InputLayer
  | Conv2D (filters: nat) (kernel_size: "nat \<times> nat") (strides: "nat \<times> nat") (pad: padding)
      (activation: "string option") (kernel_initializer: "string option")
      (kernel_regularizer: "regularizer option")
  | ReLU
  | MaxPooling2D (pool_size: "nat \<times> nat") (pool_strides: "nat \<times> nat")
  | Concatenate
  | Dropout real
  | GlobalAveragePooling2D
  | Activation string

text \<open>
  A symbolic tensor: the layer that produced it, the tensors that layer was called on,
  and its shape. The graph of a model is the term below its output tensor.
\<close>

datatype tensor = Tensor (producer: layer) (inbound: "tensor list") (shape: "nat list")

definition normalize_tuple :: "nat \<Rightarrow> nat \<times> nat" where
  "normalize_tuple n = (n, n)"

definition keras_initializers :: "string list" where
  "keras_initializers =
     [''zeros'', ''ones'', ''constant'', ''random_uniform'', ''random_normal'',
      ''truncated_normal'', ''orthogonal'', ''variance_scaling'',
      ''glorot_normal'', ''glorot_uniform'', ''he_normal'', ''he_uniform'',
      ''lecun_normal'', ''lecun_uniform'']"

definition initializers_get :: "pyval \<Rightarrow> error + string option" where
  "initializers_get v = (case v of
       VNone \<Rightarrow> Inr None
     | VStr s \<Rightarrow> (if s \<in> set keras_initializers then Inr (Some s) else Inl FrameworkError)
     | _ \<Rightarrow> Inl FrameworkError)"

definition regularizers_get :: "pyval \<Rightarrow> error + regularizer option" where
  "regularizers_get v = (case v of
       VNone \<Rightarrow> Inr None
     | VReg r \<Rightarrow> Inr (Some r)
     | VStr s \<Rightarrow>
         (if s = ''l1'' then Inr (Some (l1 0.01))
          else if s = ''l2'' then Inr (Some (l2 0.01))
          else if s = ''l1_l2'' then Inr (Some (l1_l2 0.01 0.01))
          else Inl FrameworkError)
     | _ \<Rightarrow> Inl FrameworkError)"

definition filters_get :: "pyval \<Rightarrow> error + nat" where
  "filters_get v = (case v of
       VInt n \<Rightarrow> (if 0 < n then Inr (nat n) else Inl FrameworkError)
     | _ \<Rightarrow> Inl FrameworkError)"

definition rate_get :: "pyval \<Rightarrow> error + real" where
  "rate_get v = (case v of
       VFloat r \<Rightarrow> (if 0 \<le> r \<and> r < 1 then Inr r else Inl FrameworkError)
     | VInt n \<Rightarrow> (if n = 0 then Inr 0 else Inl FrameworkError)
     | _ \<Rightarrow> Inl FrameworkError)"

text \<open>Output length along one spatial axis, for input length \<open>d\<close>, window \<open>k\<close>, stride \<open>s\<close>.\<close>

definition out_length :: "padding \<Rightarrow> nat \<Rightarrow> nat \<Rightarrow> nat \<Rightarrow> error + nat" where
  "out_length p d k s =
     (if s = 0 \<or> k = 0 then Inl FrameworkError
      else case p of
          Same \<Rightarrow> Inr ((d + s - 1) div s)
        | Valid \<Rightarrow> (if d < k then Inl FrameworkError else Inr ((d - k) div s + 1)))"

text \<open>
  The layers that work on images take a tensor of height, width and channels (rank 4
  with the batch axis) and raise on any other rank.
\<close>

definition image_shape :: "nat list \<Rightarrow> error + nat \<times> nat \<times> nat" where
  "image_shape s = (if length s = 3 then Inr (s ! 0, s ! 1, s ! 2) else Inl FrameworkError)"

text \<open>\<^verbatim>\<open>Input(shape=input_shape)\<close>.\<close>

definition Input :: "nat list \<Rightarrow> error + tensor" where
  "Input input_shape = Inr (Tensor InputLayer [] input_shape)"

text \<open>
  \<^verbatim>\<open>Conv2D(filters, kernel_size, strides=.., padding=.., activation=..,
  kernel_initializer=.., kernel_regularizer=..)(x)\<close>
\<close>

definition Conv2D_call ::
  "pyval \<Rightarrow> nat \<times> nat \<Rightarrow> nat \<times> nat \<Rightarrow> padding \<Rightarrow> string option \<Rightarrow> pyval \<Rightarrow> pyval \<Rightarrow> tensor
     \<Rightarrow> error + tensor" where
  "Conv2D_call n ks st p act init_v reg_v x =
     ebind (filters_get n) (\<lambda>f.
     ebind (initializers_get init_v) (\<lambda>ki.
     ebind (regularizers_get reg_v) (\<lambda>kr.
     ebind (image_shape (shape x)) (\<lambda>(h, w, c).
     ebind (out_length p h (fst ks) (fst st)) (\<lambda>oh.
     ebind (out_length p w (snd ks) (snd st)) (\<lambda>ow.
       Inr (Tensor (Conv2D f ks st p act ki kr) [x] [oh, ow, f])))))))"

text \<open>\<^verbatim>\<open>MaxPooling2D(pool_size, strides=..)(x)\<close>, whose padding is \<^verbatim>\<open>'valid'\<close>.\<close>

definition MaxPooling2D_call :: "nat \<times> nat \<Rightarrow> nat \<times> nat \<Rightarrow> tensor \<Rightarrow> error + tensor" where
  "MaxPooling2D_call ps st x =
     ebind (image_shape (shape x)) (\<lambda>(h, w, c).
     ebind (out_length Valid h (fst ps) (fst st)) (\<lambda>oh.
     ebind (out_length Valid w (snd ps) (snd st)) (\<lambda>ow.
       Inr (Tensor (MaxPooling2D ps st) [x] [oh, ow, c]))))"

text \<open>
  \<^verbatim>\<open>Concatenate()([a, b, ..])\<close> joins along the last axis: at least two inputs, of one
  rank, equal on every other axis.
\<close>

definition Concatenate_call :: "tensor list \<Rightarrow> error + tensor" where
  "Concatenate_call xs =
     (if length xs < 2 \<or> shape (hd xs) = []
         \<or> (\<exists>x \<in> set xs. shape x = [] \<or> butlast (shape x) \<noteq> butlast (shape (hd xs)))
      then Inl FrameworkError
      else Inr (Tensor Concatenate xs
                  (butlast (shape (hd xs)) @ [sum_list (map (\<lambda>x. last (shape x)) xs)])))"

text \<open>\<^verbatim>\<open>Dropout(rate)(x)\<close>.\<close>

definition Dropout_call :: "pyval \<Rightarrow> tensor \<Rightarrow> error + tensor" where
  "Dropout_call rate x = ebind (rate_get rate) (\<lambda>r. Inr (Tensor (Dropout r) [x] (shape x)))"

text \<open>\<^verbatim>\<open>GlobalAveragePooling2D()(x)\<close>.\<close>

definition GlobalAveragePooling2D_call :: "tensor \<Rightarrow> error + tensor" where
  "GlobalAveragePooling2D_call x =
     ebind (image_shape (shape x)) (\<lambda>(h, w, c).
       Inr (Tensor GlobalAveragePooling2D [x] [c]))"

text \<open>
  \<^verbatim>\<open>Activation(name)(x)\<close>. The two names this file uses are literals of the source;
  softmax needs an axis besides the batch axis.
\<close>

definition Activation_call :: "string \<Rightarrow> tensor \<Rightarrow> error + tensor" where
  "Activation_call name x =
     (if name = ''softmax'' \<and> shape x = [] then Inl FrameworkError
      else Inr (Tensor (Activation name) [x] (shape x)))"

text \<open>
  The softmax function itself, over the reals: what the final activation computes on
  the vector of class scores, rounding left aside.
\<close>

definition softmax_fn :: "real list \<Rightarrow> real list" where
  "softmax_fn v = map (\<lambda>x. exp x / sum_list (map exp v)) v"

subsection \<open>The base class Composable\<close>

text \<open>
  \<^verbatim>\<open>models_c.py\<close>, which defines \<^verbatim>\<open>Composable\<close>, is not among the sources. This file
  uses three things of it: the base constructor, the static helper
  \<^verbatim>\<open>Composable.ReLU\<close>, and whatever class attributes \<^verbatim>\<open>SqueezeNet\<close> inherits
  (\<^verbatim>\<open>SqueezeNet.reg\<close> is read by \<^verbatim>\<open>fire_block\<close> and is not defined in this file).
  Of the base constructor the claims below use one thing only: that it keeps the clamp
  \<^verbatim>\<open>relu\<close> on the instance (the last but one item of C6).
\<close>

record squeezenet =
  self_init_weights :: pyval
  self_reg :: pyval
  self_relu :: "real option"
  encoding :: "tensor option"
  probabilities :: "tensor option"
  softmax :: "tensor option"
  model :: "(tensor \<times> tensor) option"

definition reg_value :: "regularizer option \<Rightarrow> pyval" where
  "reg_value r = (case r of None \<Rightarrow> VNone | Some g \<Rightarrow> VReg g)"

text \<open>
  Modelled from the spec: \<^verbatim>\<open>Composable.__init__\<close> of \<^verbatim>\<open>models_c.py\<close> is missing. The
  spec says the base "standardizes hyperparameters, initializers, regularizers, and
  activation policy": the base constructor records the initializer, the regularizer and
  the ReLU clamp it is given on the instance, and builds nothing.
\<close>

definition Composable_init :: "string \<Rightarrow> regularizer option \<Rightarrow> real option \<Rightarrow> squeezenet" where
  "Composable_init init_weights reg relu =
     \<lparr>self_init_weights = VStr init_weights, self_reg = reg_value reg, self_relu = relu,
      encoding = None, probabilities = None, softmax = None, model = None\<rparr>"

text \<open>
  Modelled from the spec: \<^verbatim>\<open>Composable.ReLU\<close> of \<^verbatim>\<open>models_c.py\<close> is missing. The spec
  lists activation among the building blocks and a clamp for it among the
  hyperparameters: the helper applies one ReLU activation layer, which keeps the shape.
  The clamp is part of the base's activation policy and is not recorded in the graph.
\<close>

definition Composable_ReLU :: "tensor \<Rightarrow> error + tensor" where
  "Composable_ReLU x = Inr (Tensor ReLU [x] (shape x))"

text \<open>
  Modelled from the spec: the class attributes of \<^verbatim>\<open>Composable\<close> in \<^verbatim>\<open>models_c.py\<close>
  are missing. \<^verbatim>\<open>SqueezeNet\<close> defines no \<^verbatim>\<open>reg\<close> of its own (lines 28 to 38 of the
  source), so the \<^verbatim>\<open>SqueezeNet.reg\<close> that \<^verbatim>\<open>fire_block\<close> reads is the one of the base
  class. The spec says the base "standardizes hyperparameters, initializers,
  regularizers, and activation policy across many model definitions": it gives every
  model a class-level kernel regularizer. Which one is not said, so it is a parameter of
  the model: a regularizer, or \<open>None\<close> for \<^verbatim>\<open>None\<close>, no regularization.
\<close>

type_synonym inherited = "regularizer option"

definition SqueezeNet_reg :: "inherited \<Rightarrow> pyval" where
  "SqueezeNet_reg cls = reg_value cls"

subsection \<open>The class SqueezeNet\<close>

text \<open>Class attributes (lines 31 to 38 of the source).\<close>

definition n_filters :: "int \<Rightarrow> block" where
  "n_filters n = [(''n_filters'', n)]"

definition SqueezeNet_groups_table :: "group list" where
  "SqueezeNet_groups_table =
     [ [ n_filters 16, n_filters 16, n_filters 32 ],
       [ n_filters 32, n_filters 48, n_filters 48, n_filters 64 ],
       [ n_filters 64 ] ]"

text \<open>\<^verbatim>\<open>SqueezeNet.groups\<close> refers to one list object; when the class is defined it holds the table.\<close>

definition SqueezeNet_groups :: ref where
  "SqueezeNet_groups = 0"

definition class_defined :: heap where
  "class_defined = (\<lambda>r. [])(SqueezeNet_groups := SqueezeNet_groups_table)"

definition SqueezeNet_dropout :: pyval where
  "SqueezeNet_dropout = VFloat 0.5"

definition SqueezeNet_init_weights :: pyval where
  "SqueezeNet_init_weights = VStr ''glorot_uniform''"

text \<open>\<^verbatim>\<open>def stem(self, inputs, **metaparameters)\<close>\<close>

definition stem :: "squeezenet \<Rightarrow> tensor \<Rightarrow> kwargs \<Rightarrow> error + tensor" where
  "stem self inputs kw =
     ebind (bind_positional [''self'', ''inputs''] kw) (\<lambda>metaparameters.
     ebind (py_getitem metaparameters ''reg'') (\<lambda>reg.
     ebind (Conv2D_call (VInt 96) (7, 7) (normalize_tuple 2) Same None
              (self_init_weights self) reg inputs) (\<lambda>x.
     ebind (Composable_ReLU x) (\<lambda>x.
       MaxPooling2D_call (normalize_tuple 3) (normalize_tuple 2) x))))"

text \<open>\<^verbatim>\<open>def fire_block(x, init_weights=None, **metaparameters)\<close>, a static method.\<close>

definition fire_block :: "inherited \<Rightarrow> tensor \<Rightarrow> kwargs \<Rightarrow> error + tensor" where
  "fire_block cls x kw =
     ebind (bind_positional [''x''] kw) (\<lambda>kw.
     let init_weights = keyword_or_None kw ''init_weights'';
         metaparameters = without_key ''init_weights'' kw
     in
     ebind (py_getitem metaparameters ''n_filters'') (\<lambda>n_filters.
     ebind (if ''reg'' \<in> set (keys metaparameters) then py_getitem metaparameters ''reg''
            else Inr (SqueezeNet_reg cls)) (\<lambda>reg.
     let init_weights = (if init_weights = VNone then SqueezeNet_init_weights else init_weights)
     in
     ebind (Conv2D_call n_filters (1, 1) (normalize_tuple 1) Same (Some ''relu'')
              init_weights reg x) (\<lambda>squeeze.
     ebind (py_mul n_filters 4) (\<lambda>n4.
     ebind (Conv2D_call n4 (1, 1) (normalize_tuple 1) Same None init_weights reg squeeze)
       (\<lambda>expand1x1.
     ebind (Composable_ReLU expand1x1) (\<lambda>expand1x1.
     ebind (py_mul n_filters 4) (\<lambda>n4.
     ebind (Conv2D_call n4 (3, 3) (normalize_tuple 1) Same None init_weights reg squeeze)
       (\<lambda>expand3x3.
     ebind (Composable_ReLU expand3x3) (\<lambda>expand3x3.
       Concatenate_call [expand1x1, expand3x3]))))))))))"

text \<open>
  \<^verbatim>\<open>for block in blocks: x = SqueezeNet.fire_block(x, init_weights=init_weights, **block,
  **metaparameters)\<close>
\<close>

fun fire_blocks_loop :: "inherited \<Rightarrow> pyval \<Rightarrow> kwargs \<Rightarrow> block list \<Rightarrow> tensor \<Rightarrow> error + tensor" where
  "fire_blocks_loop cls init_weights metaparameters [] x = Inr x"
| "fire_blocks_loop cls init_weights metaparameters (block # blocks) x =
     ebind (merge_kwargs [[(''init_weights'', init_weights)], block_kwargs block, metaparameters])
       (\<lambda>kw.
     ebind (fire_block cls x kw) (\<lambda>x.
       fire_blocks_loop cls init_weights metaparameters blocks x))"

text \<open>
  \<^verbatim>\<open>def group(x, init_weights=None, **metaparameters)\<close>, a static method. The value under
  \<^verbatim>\<open>'blocks'\<close> is iterated. A list of dictionaries gives one fire block for each. A
  dictionary gives its keys, which are strings and cannot be unpacked with \<^verbatim>\<open>**\<close>: the
  first of them is a \<^verbatim>\<open>TypeError\<close>, and an empty dictionary gives no fire block. A value
  of another kind there is outside what this file passes and is reported as
  \<^verbatim>\<open>TypeError\<close>.
\<close>

definition group :: "inherited \<Rightarrow> tensor \<Rightarrow> kwargs \<Rightarrow> error + tensor" where
  "group cls x kw =
     ebind (bind_positional [''x''] kw) (\<lambda>kw.
     let init_weights = keyword_or_None kw ''init_weights'';
         metaparameters = without_key ''init_weights'' kw
     in
     ebind (py_getitem metaparameters ''blocks'') (\<lambda>blocks.
     let init_weights = (if init_weights = VNone then SqueezeNet_init_weights else init_weights)
     in
     ebind (case blocks of VBlocks bs \<Rightarrow> fire_blocks_loop cls init_weights metaparameters bs x
                         | VDict d \<Rightarrow> (if d = [] then Inr x else Inl TypeError)
                         | _ \<Rightarrow> Inl TypeError) (\<lambda>x.
       MaxPooling2D_call (3, 3) (2, 2) x)))"

text \<open>\<^verbatim>\<open>for group in groups: x = SqueezeNet.group(x, blocks=group, **metaparameters)\<close>\<close>

fun groups_loop :: "inherited \<Rightarrow> kwargs \<Rightarrow> pyval list \<Rightarrow> tensor \<Rightarrow> error + tensor" where
  "groups_loop cls metaparameters [] x = Inr x"
| "groups_loop cls metaparameters (g # gs) x =
     ebind (merge_kwargs [[(''blocks'', g)], metaparameters]) (\<lambda>kw.
     ebind (group cls x kw) (\<lambda>x.
       groups_loop cls metaparameters gs x))"

text \<open>
  The part of \<^verbatim>\<open>learner\<close> after the pop (lines 99 to 108 of the source): the loop over
  what is left of the list, the fire block of \<^verbatim>\<open>last[0]\<close>, the dropout. \<open>last0\<close> is
  what evaluating \<^verbatim>\<open>last[0]\<close> gives, which happens after the loop.
\<close>

definition learner_after_pop ::
  "inherited \<Rightarrow> kwargs \<Rightarrow> pyval \<Rightarrow> pyval list \<Rightarrow> error + block \<Rightarrow> tensor \<Rightarrow> error + tensor" where
  "learner_after_pop cls metaparameters dropout groups last0 x =
     ebind (groups_loop cls metaparameters groups x) (\<lambda>x.
     ebind last0 (\<lambda>block.
     ebind (merge_kwargs [block_kwargs block, metaparameters]) (\<lambda>kw.
     ebind (fire_block cls x kw) (\<lambda>x.
       Dropout_call dropout x))))"

text \<open>
  \<^verbatim>\<open>def learner(self, x, **metaparameters)\<close>. It pops the value under \<^verbatim>\<open>'groups'\<close>:
  \<^item> a list object of groups is popped in the store, so \<^verbatim>\<open>learner\<close> takes the store and
    returns it, and the pop stays done when a later step raises; \<^verbatim>\<open>last[0]\<close> is the
    first block of the popped group, or \<^verbatim>\<open>IndexError\<close>;
  \<^item> a flat list of dictionaries is popped as well (that list is held by value, and what
    its caller sees of the pop is not recorded); each dictionary left is handed to
    \<^verbatim>\<open>group\<close> under \<^verbatim>\<open>blocks\<close>, and \<^verbatim>\<open>last[0]\<close> looks the key 0 up in a dictionary
    whose keys are strings: \<^verbatim>\<open>KeyError(0)\<close>;
  \<^item> a dictionary has a \<^verbatim>\<open>pop\<close> that wants a key: \<^verbatim>\<open>TypeError\<close>;
  \<^item> \<^verbatim>\<open>None\<close>, a number, a string, a tuple or a regularizer has no \<^verbatim>\<open>pop\<close>:
    \<^verbatim>\<open>AttributeError\<close>.
\<close>

definition learner :: "inherited \<Rightarrow> heap \<Rightarrow> tensor \<Rightarrow> kwargs \<Rightarrow> heap \<times> (error + tensor)" where
  "learner cls h x kw =
     (case bind_positional [''self'', ''x''] kw of
        Inl e \<Rightarrow> (h, Inl e)
      | Inr metaparameters \<Rightarrow>
     (case py_getitem metaparameters ''groups'' of
        Inl e \<Rightarrow> (h, Inl e)
      | Inr groups \<Rightarrow>
     (case (if ''dropout'' \<in> set (keys metaparameters) then py_getitem metaparameters ''dropout''
            else Inr SqueezeNet_dropout) of
        Inl e \<Rightarrow> (h, Inl e)
      | Inr dropout \<Rightarrow>
     (case groups of
        VRef r \<Rightarrow>
          (case list_pop h r of
             (h', Inl e) \<Rightarrow> (h', Inl e)
           | (h', Inr last_group) \<Rightarrow>
               (h', learner_after_pop cls metaparameters dropout (map VBlocks (h' r))
                      (first_item last_group) x))
      | VBlocks ds \<Rightarrow>
          (if ds = [] then (h, Inl IndexError)
           else (h, learner_after_pop cls metaparameters dropout (map VDict (butlast ds))
                      (Inl (KeyError (VInt 0))) x))
      | VDict d \<Rightarrow> (h, Inl TypeError)
      | _ \<Rightarrow> (h, Inl AttributeError)))))"

text \<open>\<^verbatim>\<open>def classifier(self, x, n_classes, **metaparameters)\<close>\<close>

definition classifier :: "squeezenet \<Rightarrow> tensor \<Rightarrow> pyval \<Rightarrow> kwargs \<Rightarrow> error + squeezenet \<times> tensor" where
  "classifier self x n_classes kw =
     ebind (bind_positional [''self'', ''x'', ''n_classes''] kw) (\<lambda>metaparameters.
     ebind (py_getitem metaparameters ''reg'') (\<lambda>reg.
     let self = self\<lparr>encoding := Some x\<rparr> in
     ebind (Conv2D_call n_classes (1, 1) (normalize_tuple 1) Same None
              (self_init_weights self) reg x) (\<lambda>x.
     ebind (Composable_ReLU x) (\<lambda>x.
     ebind (GlobalAveragePooling2D_call x) (\<lambda>x.
     let self = self\<lparr>probabilities := Some x\<rparr> in
     ebind (Activation_call ''softmax'' x) (\<lambda>outputs.
     let self = self\<lparr>softmax := Some outputs\<rparr> in
       Inr (self, outputs)))))))"

text \<open>
  \<^verbatim>\<open>def __init__(self, groups=None, dropout=0.5, input_shape=(224, 224, 3), n_classes=1000,
  init_weights='glorot_uniform', reg=l2(0.001), relu=None)\<close>
\<close>

text \<open>
  \<^verbatim>\<open>groups\<close> is taken as any of the values above: the constructor hands it to
  \<^verbatim>\<open>learner\<close> as it is, \<^verbatim>\<open>None\<close> apart. The other parameters go to the library
  as they are, and have the types the docstring gives them.
\<close>

record ctor_args =
  groups :: pyval
  dropout :: real
  input_shape :: "nat list"
  n_classes :: int
  init_weights :: string
  reg :: "regularizer option"
  relu :: "real option"

definition default_args :: ctor_args where
  "default_args =
     \<lparr>groups = VNone, dropout = 0.5, input_shape = [224, 224, 3], n_classes = 1000,
      init_weights = ''glorot_uniform'', reg = Some (l2 0.001), relu = None\<rparr>"

definition SqueezeNet_init :: "inherited \<Rightarrow> heap \<Rightarrow> ctor_args \<Rightarrow> heap \<times> (error + squeezenet)" where
  "SqueezeNet_init cls h a =
     (let self = Composable_init (init_weights a) (reg a) (relu a);
          groups = (if groups a = VNone then VRef SqueezeNet_groups else groups a)
      in
      case ebind (Input (input_shape a)) (\<lambda>inputs.
           ebind (stem self inputs [(''reg'', reg_value (reg a))]) (\<lambda>x.
             Inr (inputs, x))) of
        Inl e \<Rightarrow> (h, Inl e)
      | Inr (inputs, x) \<Rightarrow>
          (case learner cls h x
                  [(''groups'', groups), (''dropout'', VFloat (dropout a)),
                   (''reg'', reg_value (reg a))] of
             (h', Inl e) \<Rightarrow> (h', Inl e)
           | (h', Inr x) \<Rightarrow>
               (h',
                ebind (classifier self x (VInt (n_classes a)) [(''reg'', reg_value (reg a))])
                  (\<lambda>(self, outputs).
                    Inr (self\<lparr>model := Some (inputs, outputs)\<rparr>)))))"

subsection \<open>Reading a graph\<close>

text \<open>
  Every layer of the graph below a tensor, and the chain of layers from the model's
  input to a tensor along the first input of each layer. In a fire block the first input
  of the concatenation is the 1x1 expand branch, so the chain passes through the squeeze
  convolution of every fire block once.
\<close>

fun layers_of :: "tensor \<Rightarrow> layer list" where
  "layers_of (Tensor l ins s) = l # concat (map layers_of ins)"

fun trunk :: "tensor \<Rightarrow> layer list" where
  "trunk (Tensor l ins s) = (case ins of [] \<Rightarrow> [] | i # _ \<Rightarrow> trunk i) @ [l]"

text \<open>
  The squeeze convolution is the only convolution of the file built with
  \<^verbatim>\<open>activation='relu'\<close>; the stem and the classifier apply \<^verbatim>\<open>Composable.ReLU\<close> after
  a convolution without activation.
\<close>

definition is_squeeze :: "layer \<Rightarrow> bool" where
  "is_squeeze l = (case l of Conv2D f ks st p act ki kr \<Rightarrow> act = Some ''relu'' | _ \<Rightarrow> False)"

definition is_pooling :: "layer \<Rightarrow> bool" where
  "is_pooling l = (case l of MaxPooling2D ps st \<Rightarrow> True | _ \<Rightarrow> False)"

definition fire_blocks_of :: "tensor \<Rightarrow> nat list" where
  "fire_blocks_of t = map filters (filter is_squeeze (trunk t))"

definition pooling_stages :: "tensor \<Rightarrow> nat" where
  "pooling_stages t = length (filter is_pooling (trunk t))"

text \<open>The Keras class of a layer, with the activation it applies where it has one.\<close>

definition layer_kind :: "layer \<Rightarrow> string \<times> string option" where
  "layer_kind l = (case l of
       InputLayer \<Rightarrow> (''InputLayer'', None)
     | Conv2D f ks st p act ki kr \<Rightarrow> (''Conv2D'', act)
     | ReLU \<Rightarrow> (''ReLU'', None)
     | MaxPooling2D ps st \<Rightarrow> (''MaxPooling2D'', None)
     | Concatenate \<Rightarrow> (''Concatenate'', None)
     | Dropout r \<Rightarrow> (''Dropout'', None)
     | GlobalAveragePooling2D \<Rightarrow> (''GlobalAveragePooling2D'', None)
     | Activation name \<Rightarrow> (''Activation'', Some name))"

definition outputs :: "squeezenet \<Rightarrow> tensor option" where
  "outputs m = map_option snd (model m)"

subsection \<open>The graphs the builders return\<close>

text \<open>
  When a builder returns, the tensor it returns is one of the terms below; they serve to
  state what was built.
\<close>

definition fire_module :: "nat \<Rightarrow> string option \<Rightarrow> regularizer option \<Rightarrow> tensor \<Rightarrow> tensor" where
  "fire_module n ki kr x =
     (let h = shape x ! 0; w = shape x ! 1;
          squeeze = Tensor (Conv2D n (1, 1) (1, 1) Same (Some ''relu'') ki kr) [x] [h, w, n];
          expand1x1 =
            Tensor ReLU
              [Tensor (Conv2D (n * 4) (1, 1) (1, 1) Same None ki kr) [squeeze] [h, w, n * 4]]
              [h, w, n * 4];
          expand3x3 =
            Tensor ReLU
              [Tensor (Conv2D (n * 4) (3, 3) (1, 1) Same None ki kr) [squeeze] [h, w, n * 4]]
              [h, w, n * 4]
      in Tensor Concatenate [expand1x1, expand3x3] [h, w, n * 4 + n * 4])"

definition pooled :: "tensor \<Rightarrow> tensor" where
  "pooled x =
     Tensor (MaxPooling2D (3, 3) (2, 2)) [x]
       [(shape x ! 0 - 3) div 2 + 1, (shape x ! 1 - 3) div 2 + 1, shape x ! 2]"

definition stem_graph :: "string option \<Rightarrow> regularizer option \<Rightarrow> tensor \<Rightarrow> tensor" where
  "stem_graph ki kr x =
     (let s = [(shape x ! 0 + 1) div 2, (shape x ! 1 + 1) div 2, 96] in
      pooled (Tensor ReLU [Tensor (Conv2D 96 (7, 7) (2, 2) Same None ki kr) [x] s] s))"

definition block_filters :: "block \<Rightarrow> nat" where
  "block_filters b = (case map_of b ''n_filters'' of None \<Rightarrow> 0 | Some n \<Rightarrow> nat n)"

definition fire_graph :: "regularizer option \<Rightarrow> block \<Rightarrow> tensor \<Rightarrow> tensor" where
  "fire_graph kr b x = fire_module (block_filters b) (Some ''glorot_uniform'') kr x"

definition group_graph :: "regularizer option \<Rightarrow> group \<Rightarrow> tensor \<Rightarrow> tensor" where
  "group_graph kr g x = pooled (fold (fire_graph kr) g x)"

definition learner_graph :: "regularizer option \<Rightarrow> real \<Rightarrow> group list \<Rightarrow> tensor \<Rightarrow> tensor" where
  "learner_graph kr d gs x =
     (let y = fire_graph kr (hd (last gs)) (fold (group_graph kr) (butlast gs) x)
      in Tensor (Dropout d) [y] (shape y))"

definition classifier_graph :: "nat \<Rightarrow> string option \<Rightarrow> regularizer option \<Rightarrow> tensor \<Rightarrow> tensor" where
  "classifier_graph n ki kr x =
     (let s = [shape x ! 0, shape x ! 1, n];
          p = Tensor GlobalAveragePooling2D
                [Tensor ReLU [Tensor (Conv2D n (1, 1) (1, 1) Same None ki kr) [x] s] s] [n]
      in Tensor (Activation ''softmax'') [p] [n])"

text \<open>
  A block that can be unpacked next to the keywords \<open>reserved\<close> of a call to
  \<^verbatim>\<open>fire_block\<close>: its keys are distinct, none of them is reserved, and it holds a
  positive \<^verbatim>\<open>'n_filters'\<close>.
\<close>

definition block_ok :: "string list \<Rightarrow> block \<Rightarrow> bool" where
  "block_ok reserved b =
     (distinct (keys b) \<and> (\<forall>k \<in> set (keys b). k \<notin> set reserved)
      \<and> (case map_of b ''n_filters'' of None \<Rightarrow> False | Some n \<Rightarrow> 0 < n))"

definition group_keywords :: "string list" where
  "group_keywords = [''x'', ''init_weights'', ''blocks'', ''groups'', ''dropout'', ''reg'']"

definition last_keywords :: "string list" where
  "last_keywords = [''x'', ''init_weights'', ''groups'', ''dropout'', ''reg'']"

definition table_ok :: "group list \<Rightarrow> bool" where
  "table_ok gs =
     (gs \<noteq> [] \<and> last gs \<noteq> []
      \<and> (\<forall>g \<in> set (butlast gs). \<forall>b \<in> set g. block_ok group_keywords b)
      \<and> block_ok last_keywords (hd (last gs)))"

text \<open>
  The initializer and the regularizer \<^verbatim>\<open>fire_block\<close> ends up with: the keyword
  \<^verbatim>\<open>init_weights\<close> or the class attribute, the keyword \<^verbatim>\<open>reg\<close> or the inherited
  class attribute (lines 137 to 143 of the source).
\<close>

definition fire_init :: "kwargs \<Rightarrow> pyval" where
  "fire_init kw = (if keyword_or_None kw ''init_weights'' = VNone then SqueezeNet_init_weights
                   else keyword_or_None kw ''init_weights'')"

definition fire_reg :: "inherited \<Rightarrow> kwargs \<Rightarrow> error + pyval" where
  "fire_reg cls kw =
     (if ''reg'' \<in> set (keys (without_key ''init_weights'' kw))
      then py_getitem (without_key ''init_weights'' kw) ''reg'' else Inr (SqueezeNet_reg cls))"

text \<open>
  The list object a construction pops: the one given for \<^verbatim>\<open>groups\<close>, and the class
  attribute when \<^verbatim>\<open>groups\<close> is \<^verbatim>\<open>None\<close>
  (\<^verbatim>\<open>if groups is None: groups = SqueezeNet.groups\<close>).
\<close>

definition groups_ref :: "ctor_args \<Rightarrow> ref" where
  "groups_ref a = (case groups a of VRef r \<Rightarrow> r | _ \<Rightarrow> SqueezeNet_groups)"

text \<open>The output tensor and the instance of a construction that returns.\<close>

definition SqueezeNet_graph :: "ctor_args \<Rightarrow> group list \<Rightarrow> tensor" where
  "SqueezeNet_graph a gs =
     classifier_graph (nat (n_classes a)) (Some (init_weights a)) (reg a)
       (learner_graph (reg a) (dropout a) gs
          (stem_graph (Some (init_weights a)) (reg a) (Tensor InputLayer [] (input_shape a))))"

definition built :: "ctor_args \<Rightarrow> group list \<Rightarrow> squeezenet" where
  "built a gs =
     (let out = SqueezeNet_graph a gs in
      \<lparr>self_init_weights = VStr (init_weights a), self_reg = reg_value (reg a),
       self_relu = relu a,
       encoding = Some (hd (inbound (hd (inbound (hd (inbound (hd (inbound out)))))))),
       probabilities = Some (hd (inbound out)),
       softmax = Some out,
       model = Some (Tensor InputLayer [] (input_shape a), out)\<rparr>)"

text \<open>The exceptions a construction can end with.\<close>

definition ctor_error :: "error \<Rightarrow> bool" where
  "ctor_error e =
     (e = FrameworkError \<or> e = IndexError \<or> e = KeyError (VStr ''n_filters'')
      \<or> e = KeyError (VInt 0) \<or> e = TypeError \<or> e = AttributeError)"

text \<open>A value with a \<^verbatim>\<open>pop\<close> method: a list or a dictionary.\<close>

definition has_pop :: "pyval \<Rightarrow> bool" where
  "has_pop v = (case v of VRef r \<Rightarrow> True | VBlocks ds \<Rightarrow> True | VDict d \<Rightarrow> True | _ \<Rightarrow> False)"

text \<open>
  What an activation computes on a vector, by its name: \<^verbatim>\<open>'softmax'\<close>, \<^verbatim>\<open>'relu'\<close>,
  and the identity for \<^verbatim>\<open>'linear'\<close>.
\<close>

definition activation_fn :: "string \<Rightarrow> real list \<Rightarrow> real list" where
  "activation_fn name v =
     (if name = ''softmax'' then softmax_fn v
      else if name = ''relu'' then map (max 0) v
      else v)"

text \<open>
  The initializers and the regularizers of the convolutions of a graph, and the rates of
  the dropout layers along the model.
\<close>

definition is_conv :: "layer \<Rightarrow> bool" where
  "is_conv l = (case l of Conv2D f ks st p act ki kr \<Rightarrow> True | _ \<Rightarrow> False)"

definition conv_initializers :: "tensor \<Rightarrow> string option set" where
  "conv_initializers t = set (map kernel_initializer (filter is_conv (layers_of t)))"

definition conv_regularizers :: "tensor \<Rightarrow> regularizer option set" where
  "conv_regularizers t = set (map kernel_regularizer (filter is_conv (layers_of t)))"

definition dropout_rates :: "tensor \<Rightarrow> real list" where
  "dropout_rates t = concat (map (\<lambda>l. case l of Dropout r \<Rightarrow> [r] | _ \<Rightarrow> []) (trunk t))"

text \<open>The kinds of layer in the graph below a tensor.\<close>

definition layer_kinds :: "tensor \<Rightarrow> (string \<times> string option) set" where
  "layer_kinds t = set (map layer_kind (layers_of t))"

definition stem_kinds :: "(string \<times> string option) set" where
  "stem_kinds = {(''InputLayer'', None), (''Conv2D'', None), (''ReLU'', None),
                 (''MaxPooling2D'', None)}"

definition fire_kinds :: "(string \<times> string option) set" where
  "fire_kinds = {(''Conv2D'', Some ''relu''), (''Conv2D'', None), (''ReLU'', None),
                 (''Concatenate'', None)}"

text \<open>The output tensor of a construction, when there is one.\<close>

definition constructed :: "heap \<times> (error + squeezenet) \<Rightarrow> tensor option" where
  "constructed r = (case snd r of Inl e \<Rightarrow> None | Inr m \<Rightarrow> outputs m)"

section \<open>Auxiliary facts\<close>

lemma ebind_Inr [simp]: "ebind (Inr x) f = f x"
  by (simp add: ebind_def)

lemma ebind_Inl [simp]: "ebind (Inl e) f = Inl e"
  by (simp add: ebind_def)

lemma ebind_eq_Inr: "(ebind m f = Inr y) = (\<exists>x. m = Inr x \<and> f x = Inr y)"
  by (cases m) simp_all

lemma ebind_eq_Inl: "(ebind m f = Inl e) = (m = Inl e \<or> (\<exists>x. m = Inr x \<and> f x = Inl e))"
  by (cases m) simp_all

lemma out_length_Same: "0 < k \<Longrightarrow> out_length Same d k 1 = Inr d"
  by (simp add: out_length_def)

lemma out_length_eq_Inr:
  "(out_length p d k s = Inr n) =
     (0 < s \<and> 0 < k \<and> (case p of Same \<Rightarrow> n = (d + s - 1) div s
                              | Valid \<Rightarrow> k \<le> d \<and> n = (d - k) div s + 1))"
  by (auto simp: out_length_def split: padding.splits)

lemma out_length_error: "out_length p d k s = Inl e \<Longrightarrow> e = FrameworkError"
  by (auto simp: out_length_def split: padding.splits if_splits)

lemma filters_get_eq_Inr: "(filters_get v = Inr f) = (\<exists>n. v = VInt n \<and> 0 < n \<and> f = nat n)"
  by (auto simp: filters_get_def split: pyval.splits)

lemma filters_get_error: "filters_get v = Inl e \<Longrightarrow> e = FrameworkError"
  by (auto simp: filters_get_def split: pyval.splits if_splits)

lemma initializers_get_error: "initializers_get v = Inl e \<Longrightarrow> e = FrameworkError"
  by (auto simp: initializers_get_def split: pyval.splits if_splits)

lemma regularizers_get_error: "regularizers_get v = Inl e \<Longrightarrow> e = FrameworkError"
  by (auto simp: regularizers_get_def split: pyval.splits if_splits)

lemma rate_get_error: "rate_get v = Inl e \<Longrightarrow> e = FrameworkError"
  by (auto simp: rate_get_def split: pyval.splits if_splits)

lemma image_shape_eq_Inr: "(image_shape s = Inr p) = (s = [fst p, fst (snd p), snd (snd p)])"
proof (cases p)
  case (fields h w c)
  have "length s = 3 \<Longrightarrow> s = [s ! 0, s ! 1, s ! 2]"
    by (cases s; cases "tl s"; cases "tl (tl s)") auto
  with fields show ?thesis
    by (auto simp: image_shape_def)
qed

lemma image_shape_error: "image_shape s = Inl e \<Longrightarrow> e = FrameworkError"
  by (auto simp: image_shape_def split: if_splits)

lemma Conv2D_call_eq_Inr:
  "(Conv2D_call n ks st p act iv rv x = Inr y) =
     (\<exists>f ki kr h w c oh ow.
        filters_get n = Inr f \<and> initializers_get iv = Inr ki \<and> regularizers_get rv = Inr kr
        \<and> shape x = [h, w, c]
        \<and> out_length p h (fst ks) (fst st) = Inr oh \<and> out_length p w (snd ks) (snd st) = Inr ow
        \<and> y = Tensor (Conv2D f ks st p act ki kr) [x] [oh, ow, f])"
  by (auto simp: Conv2D_call_def ebind_eq_Inr image_shape_eq_Inr)

lemma Conv2D_call_error: "Conv2D_call n ks st p act iv rv x = Inl e \<Longrightarrow> e = FrameworkError"
  by (auto simp: Conv2D_call_def ebind_eq_Inl
           dest: filters_get_error initializers_get_error regularizers_get_error out_length_error
                 image_shape_error)

lemma MaxPooling2D_call_eq_Inr:
  "(MaxPooling2D_call ps st x = Inr y) =
     (\<exists>h w c oh ow. shape x = [h, w, c]
        \<and> out_length Valid h (fst ps) (fst st) = Inr oh
        \<and> out_length Valid w (snd ps) (snd st) = Inr ow
        \<and> y = Tensor (MaxPooling2D ps st) [x] [oh, ow, c])"
  by (auto simp: MaxPooling2D_call_def ebind_eq_Inr image_shape_eq_Inr)

lemma MaxPooling2D_call_error: "MaxPooling2D_call ps st x = Inl e \<Longrightarrow> e = FrameworkError"
  by (auto simp: MaxPooling2D_call_def ebind_eq_Inl dest: out_length_error image_shape_error)

lemma Dropout_call_error: "Dropout_call r x = Inl e \<Longrightarrow> e = FrameworkError"
  by (auto simp: Dropout_call_def ebind_eq_Inl dest: rate_get_error)

lemma GlobalAveragePooling2D_call_error: "GlobalAveragePooling2D_call x = Inl e \<Longrightarrow> e = FrameworkError"
  by (auto simp: GlobalAveragePooling2D_call_def ebind_eq_Inl dest: image_shape_error)

lemma Activation_call_error: "Activation_call a x = Inl e \<Longrightarrow> e = FrameworkError"
  by (auto simp: Activation_call_def split: if_splits)

lemma Concatenate_call_error: "Concatenate_call xs = Inl e \<Longrightarrow> e = FrameworkError"
  by (auto simp: Concatenate_call_def split: if_splits)

lemma bind_positional_eq_Inr:
  "(bind_positional ps kw = Inr kw') = (kw' = kw \<and> (\<forall>k \<in> set (keys kw). k \<notin> set ps))"
  by (auto simp: bind_positional_def)

lemma bind_positional_error: "bind_positional ps kw = Inl e \<Longrightarrow> e = TypeError"
  by (auto simp: bind_positional_def split: if_splits)

lemma merge_kwargs_eq_Inr:
  "(merge_kwargs ds = Inr kw) = (kw = concat ds \<and> distinct (keys (concat ds)))"
  by (auto simp: merge_kwargs_def)

lemma merge_kwargs_error: "merge_kwargs ds = Inl e \<Longrightarrow> e = TypeError"
  by (auto simp: merge_kwargs_def split: if_splits)

lemma py_getitem_eq_Inr: "(py_getitem d k = Inr v) = (map_of d k = Some v)"
  by (auto simp: py_getitem_def split: option.splits)

lemma py_getitem_error: "py_getitem d k = Inl e \<Longrightarrow> e = KeyError (VStr k)"
  by (auto simp: py_getitem_def split: option.splits)

lemma fire_module_shape:
  "shape (fire_module n ki kr x) = [shape x ! 0, shape x ! 1, n * 4 + n * 4]"
  by (simp add: fire_module_def Let_def)

lemma conv_unit_stride_eq_Inr:
  "(Conv2D_call v ks (normalize_tuple 1) Same act iv rv x = Inr y) =
     (\<exists>n ki kr h w c. v = VInt n \<and> 0 < n \<and> 0 < fst ks \<and> 0 < snd ks
        \<and> initializers_get iv = Inr ki \<and> regularizers_get rv = Inr kr \<and> shape x = [h, w, c]
        \<and> y = Tensor (Conv2D (nat n) ks (1, 1) Same act ki kr) [x] [h, w, nat n])"
  by (auto simp: Conv2D_call_eq_Inr filters_get_eq_Inr out_length_eq_Inr normalize_tuple_def)

lemma fire_block_unfold:
  "fire_block cls x kw =
     ebind (bind_positional [''x''] kw) (\<lambda>kw.
     ebind (py_getitem (without_key ''init_weights'' kw) ''n_filters'') (\<lambda>nf.
     ebind (fire_reg cls kw) (\<lambda>rv.
     ebind (Conv2D_call nf (1, 1) (normalize_tuple 1) Same (Some ''relu'') (fire_init kw) rv x)
       (\<lambda>squeeze.
     ebind (py_mul nf 4) (\<lambda>n4.
     ebind (Conv2D_call n4 (1, 1) (normalize_tuple 1) Same None (fire_init kw) rv squeeze)
       (\<lambda>e1.
     ebind (py_mul nf 4) (\<lambda>n4.
     ebind (Conv2D_call n4 (3, 3) (normalize_tuple 1) Same None (fire_init kw) rv squeeze)
       (\<lambda>e3.
       Concatenate_call [Tensor ReLU [e1] (shape e1), Tensor ReLU [e3] (shape e3)]))))))))"
  by (simp add: fire_block_def Let_def fire_init_def fire_reg_def Composable_ReLU_def)

lemma fire_block_succeeds:
  assumes "''x'' \<notin> set (keys kw)"
    and "map_of (without_key ''init_weights'' kw) ''n_filters'' = Some (VInt n)" and "0 < n"
    and "fire_reg cls kw = Inr rv"
    and "initializers_get (fire_init kw) = Inr ki"
    and "regularizers_get rv = Inr kr"
    and "shape x = [h, w, c]"
  shows "fire_block cls x kw = Inr (fire_module (nat n) ki kr x)"
proof -
  have b: "bind_positional [''x''] kw = Inr kw"
    using assms(1) by (auto simp: bind_positional_eq_Inr)
  have g: "py_getitem (without_key ''init_weights'' kw) ''n_filters'' = Inr (VInt n)"
    using assms(2) by (simp add: py_getitem_eq_Inr)
  let ?sq = "Tensor (Conv2D (nat n) (1, 1) (1, 1) Same (Some ''relu'') ki kr) [x] [h, w, nat n]"
  have sq: "Conv2D_call (VInt n) (1, 1) (normalize_tuple 1) Same (Some ''relu'') (fire_init kw) rv x
              = Inr ?sq"
    using assms by (simp add: conv_unit_stride_eq_Inr del: One_nat_def)
  have m: "py_mul (VInt n) 4 = Inr (VInt (n * 4))"
    by (simp add: py_mul_def)
  have e: "Conv2D_call (VInt (n * 4)) ks (normalize_tuple 1) Same None (fire_init kw) rv ?sq
             = Inr (Tensor (Conv2D (nat n * 4) ks (1, 1) Same None ki kr) [?sq] [h, w, nat n * 4])"
    if "0 < fst ks" "0 < snd ks" for ks
    using assms that by (simp add: conv_unit_stride_eq_Inr nat_mult_distrib del: One_nat_def)
  show ?thesis
    by (simp add: fire_block_unfold b g assms(4) sq m e Concatenate_call_def fire_module_def
          Let_def assms(7) del: One_nat_def)
qed

lemma fire_block_returns:
  assumes "fire_block cls x kw = Inr y"
  shows "''x'' \<notin> set (keys kw) \<and>
      (\<exists>n rv ki kr h w c.
         map_of (without_key ''init_weights'' kw) ''n_filters'' = Some (VInt n) \<and> 0 < n
         \<and> fire_reg cls kw = Inr rv
         \<and> initializers_get (fire_init kw) = Inr ki
         \<and> regularizers_get rv = Inr kr
         \<and> shape x = [h, w, c]
         \<and> y = fire_module (nat n) ki kr x)"
proof -
  from assms obtain nf rv sq n4 e1 n4' e3 where
    b: "bind_positional [''x''] kw = Inr kw"
    and g: "py_getitem (without_key ''init_weights'' kw) ''n_filters'' = Inr nf"
    and r: "fire_reg cls kw = Inr rv"
    and sq: "Conv2D_call nf (1, 1) (normalize_tuple 1) Same (Some ''relu'') (fire_init kw) rv x
               = Inr sq"
    and rest: "py_mul nf 4 = Inr n4" "py_mul nf 4 = Inr n4'"
      "Conv2D_call n4 (1, 1) (normalize_tuple 1) Same None (fire_init kw) rv sq = Inr e1"
      "Conv2D_call n4' (3, 3) (normalize_tuple 1) Same None (fire_init kw) rv sq = Inr e3"
      "Concatenate_call [Tensor ReLU [e1] (shape e1), Tensor ReLU [e3] (shape e3)] = Inr y"
    by (auto simp: fire_block_unfold ebind_eq_Inr bind_positional_eq_Inr)
  from sq obtain n ki kr h w c where
    nf: "nf = VInt n" "0 < n" and ki: "initializers_get (fire_init kw) = Inr ki"
    and kr: "regularizers_get rv = Inr kr" and sx: "shape x = [h, w, c]"
    by (auto simp: conv_unit_stride_eq_Inr simp del: One_nat_def)
  have x: "''x'' \<notin> set (keys kw)"
    using b by (auto simp: bind_positional_eq_Inr)
  have m: "map_of (without_key ''init_weights'' kw) ''n_filters'' = Some (VInt n)"
    using g nf by (simp add: py_getitem_eq_Inr)
  have "fire_block cls x kw = Inr (fire_module (nat n) ki kr x)"
    by (rule fire_block_succeeds [OF x m nf(2) r ki kr sx])
  with assms have "y = fire_module (nat n) ki kr x" by simp
  with x m nf r ki kr sx show ?thesis by blast
qed

lemma keys_block_kwargs [simp]: "keys (block_kwargs b) = keys b"
  by (simp add: keys_def block_kwargs_def comp_def)

lemma keys_append [simp]: "keys (xs @ ys) = keys xs @ keys ys"
  by (simp add: keys_def)

lemma keys_Cons [simp]: "keys (p # ys) = fst p # keys ys"
  by (simp add: keys_def)

lemma keys_Nil [simp]: "keys [] = []"
  by (simp add: keys_def)

lemma map_of_block_kwargs: "map_of (block_kwargs b) k = map_option VInt (map_of b k)"
  by (induction b) (auto simp: block_kwargs_def)

lemma map_of_eq_None_keys: "(map_of d k = None) = (k \<notin> set (keys d))"
  by (simp add: keys_def map_of_eq_None_iff)

lemma without_key_absent: "k \<notin> set (keys d) \<Longrightarrow> without_key k d = d"
  by (induction d) (auto simp: without_key_def keys_def)

lemma without_key_Cons_same: "without_key k ((k, v) # d) = without_key k d"
  by (simp add: without_key_def)

lemma without_key_append: "without_key k (xs @ ys) = without_key k xs @ without_key k ys"
  by (simp add: without_key_def)

lemma block_ok_filters:
  "block_ok R b \<Longrightarrow> \<exists>n. map_of b ''n_filters'' = Some n \<and> 0 < n \<and> block_filters b = nat n"
  by (auto simp: block_ok_def block_filters_def split: option.splits)

lemma regularizers_get_reg_value [simp]: "regularizers_get (reg_value kr) = Inr kr"
  by (cases kr) (simp_all add: reg_value_def regularizers_get_def)

lemma initializers_get_class [simp]:
  "initializers_get SqueezeNet_init_weights = Inr (Some ''glorot_uniform'')"
  by (simp add: SqueezeNet_init_weights_def initializers_get_def keras_initializers_def)

text \<open>One fire block of a group, called with the keywords of the loop in group.\<close>

lemma fire_in_group:
  assumes mp: "distinct (keys mp)" "''init_weights'' \<notin> set (keys mp)" "''x'' \<notin> set (keys mp)"
      "''n_filters'' \<notin> set (keys mp)" "map_of mp ''reg'' = Some (reg_value kr)"
  shows "(ebind (merge_kwargs [[(''init_weights'', SqueezeNet_init_weights)], block_kwargs b, mp])
            (fire_block cls x) = Inr y) =
         (block_ok (''x'' # ''init_weights'' # keys mp) b
          \<and> (\<exists>h w c. shape x = [h, w, c]) \<and> y = fire_graph kr b x)"
    (is "?L = ?R")
proof
  let ?kw = "(''init_weights'', SqueezeNet_init_weights) # block_kwargs b @ mp"
  have wk: "without_key ''init_weights'' ?kw = block_kwargs b @ mp"
    if "''init_weights'' \<notin> set (keys b)"
    using that mp(2)
    by (simp add: without_key_Cons_same without_key_absent [of "''init_weights''" "block_kwargs b @ mp"])
  have fi: "fire_init ?kw = SqueezeNet_init_weights"
    by (simp add: fire_init_def keyword_or_None_def SqueezeNet_init_weights_def)
  have regin: "''reg'' \<in> set (keys mp)"
    using mp(5) by (metis map_of_eq_None_keys option.distinct(1))
  have fr: "fire_reg cls ?kw = Inr (reg_value kr)"
    if "''init_weights'' \<notin> set (keys b)" "set (keys b) \<inter> set (keys mp) = {}"
  proof -
    have "''reg'' \<notin> set (keys b)" using that(2) regin by auto
    then have "map_of (block_kwargs b) ''reg'' = None"
      by (simp add: map_of_eq_None_keys)
    then show ?thesis
      using regin mp(5) by (simp add: fire_reg_def wk [OF that(1)] py_getitem_eq_Inr map_add_def)
  qed
  {
    assume ?L
    then obtain kw where m: "merge_kwargs [[(''init_weights'', SqueezeNet_init_weights)],
        block_kwargs b, mp] = Inr kw" and f: "fire_block cls x kw = Inr y"
      by (auto simp: ebind_eq_Inr)
    from m have kw: "kw = ?kw" and d: "distinct (keys ?kw)"
      by (auto simp: merge_kwargs_eq_Inr)
    from d have niw: "''init_weights'' \<notin> set (keys b)" and db: "distinct (keys b)"
      and dj: "set (keys b) \<inter> set (keys mp) = {}"
      by auto
    from fire_block_returns [OF f] obtain n rv ki kr' h w c where
      x: "''x'' \<notin> set (keys kw)"
      and n: "map_of (without_key ''init_weights'' kw) ''n_filters'' = Some (VInt n)" "0 < n"
      and r: "fire_reg cls kw = Inr rv" and ki: "initializers_get (fire_init kw) = Inr ki"
      and kr': "regularizers_get rv = Inr kr'" and sx: "shape x = [h, w, c]"
      and y: "y = fire_module (nat n) ki kr' x"
      by blast
    from r have rv: "rv = reg_value kr" by (simp add: kw fr [OF niw dj])
    with kr' have "kr' = kr" by simp
    moreover from ki have "ki = Some ''glorot_uniform''" by (simp add: kw fi)
    moreover from n(1) have nb: "map_of b ''n_filters'' = Some n"
      using mp(4) by (auto simp: kw wk [OF niw] map_of_block_kwargs map_add_def
          map_of_eq_None_keys [symmetric] split: option.splits)
    ultimately have "y = fire_graph kr b x"
      using y by (simp add: fire_graph_def block_filters_def)
    moreover have "block_ok (''x'' # ''init_weights'' # keys mp) b"
      using x niw db dj nb n(2) by (auto simp: block_ok_def kw)
    ultimately show ?R using sx by blast
  }
  {
    assume ?R
    then obtain h w c where ok: "block_ok (''x'' # ''init_weights'' # keys mp) b"
      and sx: "shape x = [h, w, c]" and y: "y = fire_graph kr b x"
      by blast
    from ok have niw: "''init_weights'' \<notin> set (keys b)" and db: "distinct (keys b)"
      and dj: "set (keys b) \<inter> set (keys mp) = {}" and nx: "''x'' \<notin> set (keys b)"
      by (auto simp: block_ok_def)
    from block_ok_filters [OF ok] obtain n where
      n: "map_of b ''n_filters'' = Some n" "0 < n" "block_filters b = nat n"
      by blast
    have m: "merge_kwargs [[(''init_weights'', SqueezeNet_init_weights)], block_kwargs b, mp]
               = Inr ?kw"
      using niw db dj mp(1,2) by (auto simp: merge_kwargs_eq_Inr)
    have x: "''x'' \<notin> set (keys ?kw)"
      using nx mp(3) by simp
    have nf: "map_of (without_key ''init_weights'' ?kw) ''n_filters'' = Some (VInt n)"
      using n(1) by (simp add: wk [OF niw] map_of_block_kwargs map_add_def)
    have "fire_block cls x ?kw = Inr (fire_module (nat n) (Some ''glorot_uniform'') kr x)"
      by (rule fire_block_succeeds [OF x nf n(2) fr [OF niw dj] _ _ sx]) (simp_all add: fi)
    then show ?L
      by (simp add: m y fire_graph_def n(3))
  }
qed

lemma ebind_assoc: "ebind (ebind m f) g = ebind m (\<lambda>x. ebind (f x) g)"
  by (cases m) simp_all

lemma fire_graph_shape:
  "shape (fire_graph kr b x) = [shape x ! 0, shape x ! 1, block_filters b * 4 + block_filters b * 4]"
  by (simp add: fire_graph_def fire_module_shape)

lemma fold_fire_graph_shape:
  "shape x = [h, w, c] \<Longrightarrow> \<exists>c'. shape (fold (fire_graph kr) bs x) = [h, w, c']"
  by (induction bs arbitrary: x c) (simp_all add: fire_graph_shape)

lemma fire_blocks_loop_eq_Inr:
  assumes mp: "distinct (keys mp)" "''init_weights'' \<notin> set (keys mp)" "''x'' \<notin> set (keys mp)"
      "''n_filters'' \<notin> set (keys mp)" "map_of mp ''reg'' = Some (reg_value kr)"
  shows "(fire_blocks_loop cls SqueezeNet_init_weights mp bs x = Inr y) =
         ((\<forall>b \<in> set bs. block_ok (''x'' # ''init_weights'' # keys mp) b)
          \<and> (bs \<noteq> [] \<longrightarrow> (\<exists>h w c. shape x = [h, w, c]))
          \<and> y = fold (fire_graph kr) bs x)"
proof (induction bs arbitrary: x)
  case Nil
  show ?case by auto
next
  case (Cons b bs)
  have u: "fire_blocks_loop cls SqueezeNet_init_weights mp (b # bs) x =
          ebind (ebind (merge_kwargs [[(''init_weights'', SqueezeNet_init_weights)],
                          block_kwargs b, mp]) (fire_block cls x))
            (fire_blocks_loop cls SqueezeNet_init_weights mp bs)"
    by (simp add: ebind_assoc)
  have "(fire_blocks_loop cls SqueezeNet_init_weights mp (b # bs) x = Inr y) =
      (block_ok (''x'' # ''init_weights'' # keys mp) b \<and> (\<exists>h w c. shape x = [h, w, c])
       \<and> fire_blocks_loop cls SqueezeNet_init_weights mp bs (fire_graph kr b x) = Inr y)"
    by (subst u, subst ebind_eq_Inr) (auto simp: fire_in_group [OF mp])
  also have "\<dots> =
      (block_ok (''x'' # ''init_weights'' # keys mp) b \<and> (\<exists>h w c. shape x = [h, w, c])
       \<and> (\<forall>b \<in> set bs. block_ok (''x'' # ''init_weights'' # keys mp) b)
       \<and> y = fold (fire_graph kr) bs (fire_graph kr b x))"
    by (auto simp: Cons.IH fire_graph_shape)
  finally show ?case by auto
qed

lemma pooled_eq_Inr:
  "(MaxPooling2D_call (3, 3) (2, 2) x = Inr y) =
     ((\<exists>h w c. shape x = [h, w, c] \<and> 3 \<le> h \<and> 3 \<le> w) \<and> y = pooled x)"
  by (auto simp: MaxPooling2D_call_eq_Inr out_length_eq_Inr pooled_def)

lemma pooled_shape:
  "shape x = [h, w, c] \<Longrightarrow> shape (pooled x) = [(h - 3) div 2 + 1, (w - 3) div 2 + 1, c]"
  by (simp add: pooled_def)

lemma group_eq_Inr:
  assumes mp: "distinct (keys mp)" "''init_weights'' \<notin> set (keys mp)" "''x'' \<notin> set (keys mp)"
      "''n_filters'' \<notin> set (keys mp)" "''blocks'' \<notin> set (keys mp)"
      "map_of mp ''reg'' = Some (reg_value kr)"
  shows "(ebind (merge_kwargs [[(''blocks'', VBlocks g)], mp]) (group cls x) = Inr y) =
         ((\<forall>b \<in> set g. block_ok (''x'' # ''init_weights'' # ''blocks'' # keys mp) b)
          \<and> (\<exists>h w c. shape x = [h, w, c] \<and> 3 \<le> h \<and> 3 \<le> w)
          \<and> y = group_graph kr g x)"
proof -
  let ?kw = "(''blocks'', VBlocks g) # mp"
  have m: "merge_kwargs [[(''blocks'', VBlocks g)], mp] = Inr ?kw"
    using mp(1,5) by (simp add: merge_kwargs_eq_Inr)
  have b: "bind_positional [''x''] ?kw = Inr ?kw"
    using mp(3) by (auto simp: bind_positional_eq_Inr)
  have k: "keyword_or_None ?kw ''init_weights'' = VNone"
    using mp(2) by (simp add: keyword_or_None_def map_of_eq_None_keys [symmetric])
  have w: "without_key ''init_weights'' ?kw = ?kw"
    using mp(2) by (simp add: without_key_absent)
  have g: "py_getitem ?kw ''blocks'' = Inr (VBlocks g)"
    by (simp add: py_getitem_eq_Inr)
  have mp': "distinct (keys ?kw)" "''init_weights'' \<notin> set (keys ?kw)" "''x'' \<notin> set (keys ?kw)"
      "''n_filters'' \<notin> set (keys ?kw)" "map_of ?kw ''reg'' = Some (reg_value kr)"
    using mp by simp_all
  have u: "group cls x ?kw =
          ebind (fire_blocks_loop cls SqueezeNet_init_weights ?kw g x) (MaxPooling2D_call (3, 3) (2, 2))"
    by (simp add: group_def b k w g Let_def del: without_key_def)
  have "(group cls x ?kw = Inr y) =
      ((\<forall>b \<in> set g. block_ok (''x'' # ''init_weights'' # keys ?kw) b)
       \<and> (g \<noteq> [] \<longrightarrow> (\<exists>h w c. shape x = [h, w, c]))
       \<and> (\<exists>h w c. shape (fold (fire_graph kr) g x) = [h, w, c] \<and> 3 \<le> h \<and> 3 \<le> w)
       \<and> y = pooled (fold (fire_graph kr) g x))"
    by (subst u, subst ebind_eq_Inr) (auto simp: fire_blocks_loop_eq_Inr [OF mp'] pooled_eq_Inr)
  also have "\<dots> =
      ((\<forall>b \<in> set g. block_ok (''x'' # ''init_weights'' # ''blocks'' # keys mp) b)
       \<and> (\<exists>h w c. shape x = [h, w, c] \<and> 3 \<le> h \<and> 3 \<le> w)
       \<and> y = group_graph kr g x)"
  proof (cases "g = []")
    case True
    then show ?thesis by (simp add: group_graph_def)
  next
    case False
    have "(\<exists>h w c. shape (fold (fire_graph kr) g x) = [h, w, c] \<and> 3 \<le> h \<and> 3 \<le> w) =
          (3 \<le> h \<and> 3 \<le> w)" if "shape x = [h, w, c]" for h w c
      using fold_fire_graph_shape [OF that, of kr g] by auto
    with False show ?thesis
      by (auto simp: group_graph_def)
  qed
  finally show ?thesis by (simp add: m)
qed

lemma group_graph_shape:
  "shape x = [h, w, c] \<Longrightarrow>
     \<exists>c'. shape (group_graph kr g x) = [(h - 3) div 2 + 1, (w - 3) div 2 + 1, c']"
  using fold_fire_graph_shape [of x h w c kr g] by (auto simp: group_graph_def pooled_shape)

lemma halving:
  fixes a h :: nat
  assumes "2 \<le> a"
  shows "(3 \<le> h \<and> a \<le> (h - 3) div 2 + 1 + 1) = (2 * a \<le> h + 1)"
  using assms by arith

lemma groups_loop_eq_Inr:
  assumes mp: "distinct (keys mp)" "''init_weights'' \<notin> set (keys mp)" "''x'' \<notin> set (keys mp)"
      "''n_filters'' \<notin> set (keys mp)" "''blocks'' \<notin> set (keys mp)"
      "map_of mp ''reg'' = Some (reg_value kr)"
  shows "(groups_loop cls mp (map VBlocks gs) x = Inr y) =
         ((\<forall>g \<in> set gs. \<forall>b \<in> set g. block_ok (''x'' # ''init_weights'' # ''blocks'' # keys mp) b)
          \<and> (gs \<noteq> [] \<longrightarrow>
               (\<exists>h w c. shape x = [h, w, c] \<and> 2 ^ (length gs + 1) \<le> h + 1
                          \<and> 2 ^ (length gs + 1) \<le> w + 1))
          \<and> y = fold (group_graph kr) gs x)"
proof (induction gs arbitrary: x)
  case Nil
  show ?case by auto
next
  case (Cons g gs)
  let ?ok = "\<lambda>g. \<forall>b \<in> set g. block_ok (''x'' # ''init_weights'' # ''blocks'' # keys mp) b"
  have u: "groups_loop cls mp (map VBlocks (g # gs)) x =
          ebind (ebind (merge_kwargs [[(''blocks'', VBlocks g)], mp]) (group cls x))
            (groups_loop cls mp (map VBlocks gs))"
    by (simp add: ebind_assoc)
  have "(groups_loop cls mp (map VBlocks (g # gs)) x = Inr y) =
      (?ok g \<and> (\<exists>h w c. shape x = [h, w, c] \<and> 3 \<le> h \<and> 3 \<le> w)
       \<and> groups_loop cls mp (map VBlocks gs) (group_graph kr g x) = Inr y)"
    by (subst u, subst ebind_eq_Inr) (auto simp: group_eq_Inr [OF mp])
  also have "\<dots> =
      (?ok g \<and> (\<forall>g \<in> set gs. ?ok g)
       \<and> (\<exists>h w c. shape x = [h, w, c] \<and> 2 ^ (length (g # gs) + 1) \<le> h + 1
                    \<and> 2 ^ (length (g # gs) + 1) \<le> w + 1)
       \<and> y = fold (group_graph kr) gs (group_graph kr g x))"
  proof (cases "gs = []")
    case True
    then show ?thesis by auto
  next
    case False
    have p: "(2::nat) \<le> 2 ^ (length gs + 1)"
      by simp
    have "((3 \<le> h \<and> 3 \<le> w) \<and>
           (\<exists>h' w' c'. shape (group_graph kr g x) = [h', w', c']
              \<and> 2 ^ (length gs + 1) \<le> h' + 1 \<and> 2 ^ (length gs + 1) \<le> w' + 1)) =
          (2 ^ (length (g # gs) + 1) \<le> h + 1 \<and> 2 ^ (length (g # gs) + 1) \<le> w + 1)"
      if "shape x = [h, w, c]" for h w c
    proof -
      from group_graph_shape [OF that, of kr g] obtain c' where
        "shape (group_graph kr g x) = [(h - 3) div 2 + 1, (w - 3) div 2 + 1, c']" ..
      then show ?thesis
        using halving [OF p, of h] halving [OF p, of w] by auto
    qed
    with False show ?thesis
      by (simp add: Cons.IH) blast
  qed
  finally show ?case by auto
qed

lemma fire_last:
  assumes mp: "distinct (keys mp)" "''init_weights'' \<notin> set (keys mp)" "''x'' \<notin> set (keys mp)"
      "''n_filters'' \<notin> set (keys mp)" "map_of mp ''reg'' = Some (reg_value kr)"
  shows "(ebind (merge_kwargs [block_kwargs b, mp]) (fire_block cls x) = Inr y) =
         (block_ok (''x'' # ''init_weights'' # keys mp) b
          \<and> (\<exists>h w c. shape x = [h, w, c]) \<and> y = fire_graph kr b x)"
    (is "?L = ?R")
proof
  let ?kw = "block_kwargs b @ mp"
  have wk: "without_key ''init_weights'' ?kw = ?kw" if "''init_weights'' \<notin> set (keys b)"
    using that mp(2) by (simp add: without_key_absent)
  have fi: "fire_init ?kw = SqueezeNet_init_weights" if "''init_weights'' \<notin> set (keys b)"
    using that mp(2)
    by (simp add: fire_init_def keyword_or_None_def map_add_def map_of_block_kwargs
          map_of_eq_None_keys [symmetric])
  have regin: "''reg'' \<in> set (keys mp)"
    using mp(5) by (metis map_of_eq_None_keys option.distinct(1))
  have fr: "fire_reg cls ?kw = Inr (reg_value kr)"
    if "''init_weights'' \<notin> set (keys b)" "set (keys b) \<inter> set (keys mp) = {}"
  proof -
    have "''reg'' \<notin> set (keys b)" using that(2) regin by auto
    then have "map_of (block_kwargs b) ''reg'' = None"
      by (simp add: map_of_eq_None_keys)
    then show ?thesis
      using regin mp(5) by (simp add: fire_reg_def wk [OF that(1)] py_getitem_eq_Inr map_add_def)
  qed
  {
    assume ?L
    then obtain kw where m: "merge_kwargs [block_kwargs b, mp] = Inr kw"
      and f: "fire_block cls x kw = Inr y"
      by (auto simp: ebind_eq_Inr)
    from m have kw: "kw = ?kw" and d: "distinct (keys ?kw)"
      by (auto simp: merge_kwargs_eq_Inr)
    from d have db: "distinct (keys b)" and dj: "set (keys b) \<inter> set (keys mp) = {}"
      by auto
    from fire_block_returns [OF f] obtain n rv ki kr' h w c where
      x: "''x'' \<notin> set (keys kw)"
      and n: "map_of (without_key ''init_weights'' kw) ''n_filters'' = Some (VInt n)" "0 < n"
      and r: "fire_reg cls kw = Inr rv" and ki: "initializers_get (fire_init kw) = Inr ki"
      and kr': "regularizers_get rv = Inr kr'" and sx: "shape x = [h, w, c]"
      and y: "y = fire_module (nat n) ki kr' x"
      by blast
    have niw: "''init_weights'' \<notin> set (keys b)"
    proof
      assume "''init_weights'' \<in> set (keys b)"
      then obtain k where "map_of b ''init_weights'' = Some k"
        by (metis map_of_eq_None_keys not_Some_eq)
      then have "fire_init kw = VInt k"
        by (simp add: kw fire_init_def keyword_or_None_def map_add_def map_of_block_kwargs)
      with ki show False by (simp add: initializers_get_def)
    qed
    from r have rv: "rv = reg_value kr" by (simp add: kw fr [OF niw dj])
    with kr' have "kr' = kr" by simp
    moreover from ki have "ki = Some ''glorot_uniform''" by (simp add: kw fi [OF niw])
    moreover from n(1) have nb: "map_of b ''n_filters'' = Some n"
      using mp(4) by (auto simp: kw wk [OF niw] map_of_block_kwargs map_add_def
          map_of_eq_None_keys [symmetric] split: option.splits)
    ultimately have "y = fire_graph kr b x"
      using y by (simp add: fire_graph_def block_filters_def)
    moreover have "block_ok (''x'' # ''init_weights'' # keys mp) b"
      using x niw db dj nb n(2) by (auto simp: block_ok_def kw)
    ultimately show ?R using sx by blast
  }
  {
    assume ?R
    then obtain h w c where ok: "block_ok (''x'' # ''init_weights'' # keys mp) b"
      and sx: "shape x = [h, w, c]" and y: "y = fire_graph kr b x"
      by blast
    from ok have niw: "''init_weights'' \<notin> set (keys b)" and db: "distinct (keys b)"
      and dj: "set (keys b) \<inter> set (keys mp) = {}" and nx: "''x'' \<notin> set (keys b)"
      by (auto simp: block_ok_def)
    from block_ok_filters [OF ok] obtain n where
      n: "map_of b ''n_filters'' = Some n" "0 < n" "block_filters b = nat n"
      by blast
    have m: "merge_kwargs [block_kwargs b, mp] = Inr ?kw"
      using db dj mp(1) by (auto simp: merge_kwargs_eq_Inr)
    have x: "''x'' \<notin> set (keys ?kw)"
      using nx mp(3) by simp
    have nf: "map_of (without_key ''init_weights'' ?kw) ''n_filters'' = Some (VInt n)"
      using n(1) by (simp add: wk [OF niw] map_of_block_kwargs map_add_def)
    have "fire_block cls x ?kw = Inr (fire_module (nat n) (Some ''glorot_uniform'') kr x)"
      by (rule fire_block_succeeds [OF x nf n(2) fr [OF niw dj] _ _ sx]) (simp_all add: fi [OF niw])
    then show ?L
      by (simp add: m y fire_graph_def n(3))
  }
qed

lemma fold_group_graph_shape:
  "shape x = [h, w, c] \<Longrightarrow> \<exists>h' w' c'. shape (fold (group_graph kr) gs x) = [h', w', c']"
proof (induction gs arbitrary: x h w c)
  case Nil
  then show ?case by simp
next
  case (Cons g gs)
  from group_graph_shape [OF Cons.prems, of kr g] obtain c' where
    "shape (group_graph kr g x) = [(h - 3) div 2 + 1, (w - 3) div 2 + 1, c']" ..
  from Cons.IH [OF this] show ?case by simp
qed

lemma Dropout_call_eq_Inr:
  "(Dropout_call (VFloat d) x = Inr y) = (0 \<le> d \<and> d < 1 \<and> y = Tensor (Dropout d) [x] (shape x))"
  by (auto simp: Dropout_call_def rate_get_def ebind_eq_Inr)

lemma first_item_eq_Inr: "(first_item xs = Inr b) = (xs \<noteq> [] \<and> b = hd xs)"
  by (cases xs) (auto simp: first_item_def)

lemma first_item_error: "first_item xs = Inl e \<Longrightarrow> e = IndexError"
  by (cases xs) (auto simp: first_item_def)

lemma learner_eq_Inr:
  "(learner cls hp x [(''groups'', VRef r), (''dropout'', VFloat d), (''reg'', reg_value kr)]
      = (hp', Inr y)) =
   (table_ok (hp r) \<and> hp' = hp(r := butlast (hp r)) \<and> 0 \<le> d \<and> d < 1
    \<and> (\<exists>h w c. shape x = [h, w, c]
          \<and> (butlast (hp r) \<noteq> [] \<longrightarrow> 2 ^ length (hp r) \<le> h + 1 \<and> 2 ^ length (hp r) \<le> w + 1))
    \<and> y = learner_graph kr d (hp r) x)"
proof (cases "hp r")
  case Nil
  then show ?thesis
    by (simp add: learner_def bind_positional_def py_getitem_def list_pop_def table_ok_def)
next
  case (Cons g0 gs0)
  let ?kw = "[(''groups'', VRef r), (''dropout'', VFloat d), (''reg'', reg_value kr)]"
  let ?gs = "hp r"
  have ne: "?gs \<noteq> []" using Cons by simp
  have len: "length (butlast ?gs) + 1 = length ?gs" using ne by simp
  have mp: "distinct (keys ?kw)" "''init_weights'' \<notin> set (keys ?kw)" "''x'' \<notin> set (keys ?kw)"
      "''n_filters'' \<notin> set (keys ?kw)" "''blocks'' \<notin> set (keys ?kw)"
      "map_of ?kw ''reg'' = Some (reg_value kr)"
    by simp_all
  have u: "learner cls hp x ?kw =
      (hp(r := butlast ?gs),
       ebind (groups_loop cls ?kw (map VBlocks (butlast ?gs)) x) (\<lambda>x1.
       ebind (first_item (last ?gs)) (\<lambda>b.
       ebind (ebind (merge_kwargs [block_kwargs b, ?kw]) (fire_block cls x1))
         (Dropout_call (VFloat d)))))"
    using Cons
    by (simp add: learner_def learner_after_pop_def bind_positional_def py_getitem_def
          list_pop_def ebind_assoc)
  define x1 where "x1 = fold (group_graph kr) (butlast ?gs) x"
  define GC where "GC \<longleftrightarrow>
       (\<forall>g \<in> set (butlast ?gs). \<forall>b \<in> set g. block_ok group_keywords b)
       \<and> (butlast ?gs \<noteq> [] \<longrightarrow>
            (\<exists>h w c. shape x = [h, w, c] \<and> 2 ^ length ?gs \<le> h + 1 \<and> 2 ^ length ?gs \<le> w + 1))"
  have g: "(groups_loop cls ?kw (map VBlocks (butlast ?gs)) x = Inr z) = (GC \<and> z = x1)" for z
    using groups_loop_eq_Inr [OF mp, of cls "butlast ?gs" x z]
    unfolding len GC_def x1_def group_keywords_def by simp
  have s1: "(ebind (groups_loop cls ?kw (map VBlocks (butlast ?gs)) x) K = Inr y) = (GC \<and> K x1 = Inr y)"
    for K
    by (subst ebind_eq_Inr) (auto simp: g)
  have s2: "(ebind (first_item (last ?gs)) K = Inr y) =
            (last ?gs \<noteq> [] \<and> K (hd (last ?gs)) = Inr y)" for K
    by (subst ebind_eq_Inr) (auto simp: first_item_eq_Inr)
  have s3: "(ebind (ebind (merge_kwargs [block_kwargs b, ?kw]) (fire_block cls x1)) K = Inr y) =
            (block_ok last_keywords b \<and> (\<exists>h w c. shape x1 = [h, w, c])
             \<and> K (fire_graph kr b x1) = Inr y)" for b K
    by (subst ebind_eq_Inr) (auto simp: fire_last [OF mp(1,2,3,4,6)] last_keywords_def)
  have "(learner cls hp x ?kw = (hp', Inr y)) =
      (hp' = hp(r := butlast ?gs)
       \<and> GC
       \<and> last ?gs \<noteq> [] \<and> block_ok last_keywords (hd (last ?gs))
       \<and> (\<exists>h w c. shape x1 = [h, w, c])
       \<and> 0 \<le> d \<and> d < 1
       \<and> y = learner_graph kr d ?gs x)"
    unfolding u prod.inject s1 s2 s3 Dropout_call_eq_Inr
    by (auto simp: learner_graph_def Let_def x1_def)
  also have "\<dots> =
      (table_ok ?gs \<and> hp' = hp(r := butlast ?gs) \<and> 0 \<le> d \<and> d < 1
       \<and> (\<exists>h w c. shape x = [h, w, c]
          \<and> (butlast ?gs \<noteq> [] \<longrightarrow> 2 ^ length ?gs \<le> h + 1 \<and> 2 ^ length ?gs \<le> w + 1))
       \<and> y = learner_graph kr d ?gs x)"
  proof (cases "butlast ?gs = []")
    case True
    then show ?thesis using ne by (auto simp: table_ok_def GC_def x1_def)
  next
    case False
    have "\<exists>h' w' c'. shape x1 = [h', w', c']"
      if "shape x = [h, w, c]" for h w c
      unfolding x1_def by (rule fold_group_graph_shape [OF that])
    then show ?thesis using ne False by (auto simp: table_ok_def GC_def)
  qed
  finally show ?thesis .
qed

lemma stem_eq_Inr:
  "(stem self x kw = Inr y) =
     (''self'' \<notin> set (keys kw) \<and> ''inputs'' \<notin> set (keys kw) \<and>
      (\<exists>rv ki kr h w c. map_of kw ''reg'' = Some rv
         \<and> initializers_get (self_init_weights self) = Inr ki \<and> regularizers_get rv = Inr kr
         \<and> shape x = [h, w, c] \<and> 5 \<le> h \<and> 5 \<le> w \<and> y = stem_graph ki kr x))"
proof -
  have a: "(3 \<le> (h + 1) div 2) = (5 \<le> h)" for h :: nat
    by arith
  show ?thesis
    unfolding stem_def
    by (auto simp: ebind_eq_Inr bind_positional_eq_Inr py_getitem_eq_Inr Conv2D_call_eq_Inr
          filters_get_eq_Inr out_length_eq_Inr normalize_tuple_def Composable_ReLU_def
          MaxPooling2D_call_eq_Inr stem_graph_def pooled_def Let_def a)
qed

lemma stem_graph_shape:
  "shape x = [h, w, c] \<Longrightarrow>
     shape (stem_graph ki kr x) = [((h + 1) div 2 - 3) div 2 + 1, ((w + 1) div 2 - 3) div 2 + 1, 96]"
  by (simp add: stem_graph_def pooled_def Let_def)

lemma GlobalAveragePooling2D_call_eq_Inr:
  "(GlobalAveragePooling2D_call x = Inr y) =
     (\<exists>h w c. shape x = [h, w, c] \<and> y = Tensor GlobalAveragePooling2D [x] [c])"
  by (auto simp: GlobalAveragePooling2D_call_def ebind_eq_Inr image_shape_eq_Inr)

lemma softmax_call_eq_Inr:
  "(Activation_call ''softmax'' x = Inr y) =
     (shape x \<noteq> [] \<and> y = Tensor (Activation ''softmax'') [x] (shape x))"
  by (auto simp: Activation_call_def)

lemma classifier_eq_Inr:
  "(classifier self x nv kw = Inr (self', y)) =
     (''self'' \<notin> set (keys kw) \<and> ''x'' \<notin> set (keys kw) \<and> ''n_classes'' \<notin> set (keys kw) \<and>
      (\<exists>rv n ki kr h w c. map_of kw ''reg'' = Some rv \<and> nv = VInt n \<and> 0 < n
         \<and> initializers_get (self_init_weights self) = Inr ki \<and> regularizers_get rv = Inr kr
         \<and> shape x = [h, w, c] \<and> y = classifier_graph (nat n) ki kr x
         \<and> self' = self\<lparr>encoding := Some x, probabilities := Some (hd (inbound y)),
                          softmax := Some y\<rparr>))"
  unfolding classifier_def
  by (auto simp: ebind_eq_Inr bind_positional_eq_Inr py_getitem_eq_Inr Conv2D_call_eq_Inr
        filters_get_eq_Inr out_length_eq_Inr normalize_tuple_def Composable_ReLU_def
        GlobalAveragePooling2D_call_eq_Inr softmax_call_eq_Inr
        classifier_graph_def Let_def)

lemma learner_after_pop_raised:
  "learner_after_pop cls mp dv items (Inl e0) x \<noteq> Inr y"
  unfolding learner_after_pop_def by (auto simp: ebind_eq_Inr)

lemma learner_returns_list:
  assumes "learner cls hp x [(''groups'', g), (''dropout'', VFloat d), (''reg'', rv)]
             = (hp', Inr y)"
  shows "\<exists>r. g = VRef r"
  using assms
  by (cases g)
     (auto simp: learner_def bind_positional_def py_getitem_def learner_after_pop_raised
        split: if_splits)

lemma groups_given:
  "(if groups a = VNone then VRef SqueezeNet_groups else groups a) = VRef r \<Longrightarrow>
     (groups a = VNone \<or> groups a = VRef (groups_ref a)) \<and> groups_ref a = r"
  by (auto simp: groups_ref_def split: if_splits)

lemma groups_resolved:
  "groups a = VNone \<or> groups a = VRef (groups_ref a) \<Longrightarrow>
     (if groups a = VNone then VRef SqueezeNet_groups else groups a) = VRef (groups_ref a)"
  by (auto simp: groups_ref_def)

lemma SqueezeNet_init_unfold:
  "(SqueezeNet_init cls hp a = (hp', Inr m)) =
     ((groups a = VNone \<or> groups a = VRef (groups_ref a)) \<and>
      (\<exists>x1 x2 self' out.
        stem (Composable_init (init_weights a) (reg a) (relu a))
          (Tensor InputLayer [] (input_shape a)) [(''reg'', reg_value (reg a))] = Inr x1
        \<and> learner cls hp x1
            [(''groups'', VRef (groups_ref a)), (''dropout'', VFloat (dropout a)),
             (''reg'', reg_value (reg a))] = (hp', Inr x2)
        \<and> classifier (Composable_init (init_weights a) (reg a) (relu a)) x2
            (VInt (n_classes a)) [(''reg'', reg_value (reg a))] = Inr (self', out)
        \<and> m = self'\<lparr>model := Some (Tensor InputLayer [] (input_shape a), out)\<rparr>))"
    (is "?L = (?G \<and> ?R)")
proof -
  let ?g = "if groups a = VNone then VRef SqueezeNet_groups else groups a"
  have u: "?L =
     (\<exists>x1 x2 self' out.
        stem (Composable_init (init_weights a) (reg a) (relu a))
          (Tensor InputLayer [] (input_shape a)) [(''reg'', reg_value (reg a))] = Inr x1
        \<and> learner cls hp x1
            [(''groups'', ?g), (''dropout'', VFloat (dropout a)),
             (''reg'', reg_value (reg a))] = (hp', Inr x2)
        \<and> classifier (Composable_init (init_weights a) (reg a) (relu a)) x2
            (VInt (n_classes a)) [(''reg'', reg_value (reg a))] = Inr (self', out)
        \<and> m = self'\<lparr>model := Some (Tensor InputLayer [] (input_shape a), out)\<rparr>)"
    unfolding SqueezeNet_init_def Let_def Input_def
    by (auto simp: ebind_eq_Inr split: sum.splits prod.splits)
  show ?thesis
  proof
    assume ?L
    then obtain x1 x2 self' out where
      r: "stem (Composable_init (init_weights a) (reg a) (relu a))
          (Tensor InputLayer [] (input_shape a)) [(''reg'', reg_value (reg a))] = Inr x1"
        "learner cls hp x1
            [(''groups'', ?g), (''dropout'', VFloat (dropout a)),
             (''reg'', reg_value (reg a))] = (hp', Inr x2)"
        "classifier (Composable_init (init_weights a) (reg a) (relu a)) x2
            (VInt (n_classes a)) [(''reg'', reg_value (reg a))] = Inr (self', out)"
        "m = self'\<lparr>model := Some (Tensor InputLayer [] (input_shape a), out)\<rparr>"
      unfolding u by blast
    from learner_returns_list [OF r(2)] obtain r' where g: "?g = VRef r'" ..
    from groups_given [OF g] have G: ?G and "groups_ref a = r'" by blast+
    with g have "?g = VRef (groups_ref a)" by simp
    with r G show "?G \<and> ?R" by auto
  next
    assume "?G \<and> ?R"
    then have "?g = VRef (groups_ref a)" by (intro groups_resolved) simp
    with \<open>?G \<and> ?R\<close> show ?L unfolding u by auto
  qed
qed

lemma quartering:
  fixes a h :: nat
  assumes "4 \<le> a"
  shows "(5 \<le> h \<and> a \<le> ((h + 1) div 2 - 3) div 2 + 1 + 1) = (4 * a \<le> h + 3)"
  using assms by arith

lemma stem_dims:
  fixes h :: nat
  assumes "gs \<noteq> []"
  shows "(5 \<le> h \<and> (butlast gs \<noteq> [] \<longrightarrow> 2 ^ length gs \<le> ((h + 1) div 2 - 3) div 2 + 1 + 1)) =
         (2 ^ (length gs + 2) \<le> h + 3)"
proof (cases "butlast gs = []")
  case True
  with assms have "length gs = 1"
    by (cases gs) (auto split: if_splits)
  with True show ?thesis by auto
next
  case False
  then have "2 \<le> length gs"
    by (cases gs; cases "tl gs") (auto split: if_splits)
  then have "(2::nat) ^ 2 \<le> 2 ^ length gs"
    by (rule power_increasing) simp
  then have "(4::nat) \<le> 2 ^ length gs" by simp
  from quartering [OF this, of h] False show ?thesis by simp
qed

lemma learner_graph_shape: "\<exists>h w c. shape (learner_graph kr d gs x) = [h, w, c]"
  by (simp add: learner_graph_def Let_def fire_graph_shape)

lemma initializers_get_VStr:
  "(initializers_get (VStr iw) = Inr ki) = (iw \<in> set keras_initializers \<and> ki = Some iw)"
  by (auto simp: initializers_get_def)

lemma SqueezeNet_init_eq_Inr:
  "(SqueezeNet_init cls hp a = (hp', Inr m)) =
     ((groups a = VNone \<or> groups a = VRef (groups_ref a))
      \<and> table_ok (hp (groups_ref a)) \<and> hp' = hp(groups_ref a := butlast (hp (groups_ref a)))
      \<and> 0 \<le> dropout a \<and> dropout a < 1 \<and> 0 < n_classes a
      \<and> init_weights a \<in> set keras_initializers
      \<and> (\<exists>h w c. input_shape a = [h, w, c]
            \<and> 2 ^ (length (hp (groups_ref a)) + 2) \<le> h + 3
            \<and> 2 ^ (length (hp (groups_ref a)) + 2) \<le> w + 3)
      \<and> m = built a (hp (groups_ref a)))"
proof -
  let ?gs = "hp (groups_ref a)"
  let ?self = "Composable_init (init_weights a) (reg a) (relu a)"
  let ?inp = "Tensor InputLayer [] (input_shape a)"
  let ?x1 = "stem_graph (Some (init_weights a)) (reg a) ?inp"
  let ?x2 = "learner_graph (reg a) (dropout a) ?gs ?x1"
  have iw: "self_init_weights ?self = VStr (init_weights a)"
    by (simp add: Composable_init_def)
  have st: "(stem ?self ?inp [(''reg'', reg_value (reg a))] = Inr x1) =
      (init_weights a \<in> set keras_initializers
       \<and> (\<exists>h w c. input_shape a = [h, w, c] \<and> 5 \<le> h \<and> 5 \<le> w) \<and> x1 = ?x1)" for x1
    by (auto simp: stem_eq_Inr iw initializers_get_VStr)
  have cl: "(classifier ?self ?x2 (VInt (n_classes a)) [(''reg'', reg_value (reg a))]
              = Inr (self', out)) =
      (0 < n_classes a \<and> init_weights a \<in> set keras_initializers
       \<and> out = SqueezeNet_graph a ?gs
       \<and> self' = ?self\<lparr>encoding := Some ?x2, probabilities := Some (hd (inbound out)),
                          softmax := Some out\<rparr>)" for self' out
    using learner_graph_shape [of "reg a" "dropout a" ?gs ?x1]
    by (auto simp: classifier_eq_Inr iw initializers_get_VStr SqueezeNet_graph_def)
  have enc: "hd (inbound (hd (inbound (hd (inbound (hd (inbound (SqueezeNet_graph a ?gs)))))))) = ?x2"
    by (simp add: SqueezeNet_graph_def classifier_graph_def Let_def)
  have bm: "?self\<lparr>encoding := Some ?x2,
                  probabilities := Some (hd (inbound (SqueezeNet_graph a ?gs))),
                  softmax := Some (SqueezeNet_graph a ?gs),
                  model := Some (?inp, SqueezeNet_graph a ?gs)\<rparr> = built a ?gs"
    by (simp add: built_def Let_def enc Composable_init_def)
  have "(SqueezeNet_init cls hp a = (hp', Inr m)) =
      ((groups a = VNone \<or> groups a = VRef (groups_ref a))
       \<and> init_weights a \<in> set keras_initializers
       \<and> (\<exists>h w c. input_shape a = [h, w, c] \<and> 5 \<le> h \<and> 5 \<le> w)
       \<and> table_ok ?gs \<and> hp' = hp(groups_ref a := butlast ?gs)
       \<and> 0 \<le> dropout a \<and> dropout a < 1
       \<and> (\<exists>h w c. shape ?x1 = [h, w, c]
            \<and> (butlast ?gs \<noteq> [] \<longrightarrow> 2 ^ length ?gs \<le> h + 1 \<and> 2 ^ length ?gs \<le> w + 1))
       \<and> 0 < n_classes a
       \<and> m = built a ?gs)"
    unfolding SqueezeNet_init_unfold st learner_eq_Inr
    by (auto simp: cl bm)
  also have "\<dots> =
      ((groups a = VNone \<or> groups a = VRef (groups_ref a))
       \<and> table_ok ?gs \<and> hp' = hp(groups_ref a := butlast ?gs)
       \<and> 0 \<le> dropout a \<and> dropout a < 1 \<and> 0 < n_classes a
       \<and> init_weights a \<in> set keras_initializers
       \<and> (\<exists>h w c. input_shape a = [h, w, c]
            \<and> 2 ^ (length ?gs + 2) \<le> h + 3 \<and> 2 ^ (length ?gs + 2) \<le> w + 3)
       \<and> m = built a ?gs)"
  proof (cases "table_ok ?gs")
    case False
    then show ?thesis by simp
  next
    case True
    then have ne: "?gs \<noteq> []" by (simp add: table_ok_def)
    have "((\<exists>h w c. input_shape a = [h, w, c] \<and> 5 \<le> h \<and> 5 \<le> w)
           \<and> (\<exists>h w c. shape ?x1 = [h, w, c]
            \<and> (butlast ?gs \<noteq> [] \<longrightarrow> 2 ^ length ?gs \<le> h + 1 \<and> 2 ^ length ?gs \<le> w + 1))) =
          (\<exists>h w c. input_shape a = [h, w, c]
            \<and> 2 ^ (length ?gs + 2) \<le> h + 3 \<and> 2 ^ (length ?gs + 2) \<le> w + 3)"
      (is "?A = ?B")
    proof
      assume ?A
      then obtain h w c where s: "input_shape a = [h, w, c]" and "5 \<le> h" "5 \<le> w"
        and "butlast ?gs \<noteq> [] \<longrightarrow>
               2 ^ length ?gs \<le> ((h + 1) div 2 - 3) div 2 + 1 + 1
               \<and> 2 ^ length ?gs \<le> ((w + 1) div 2 - 3) div 2 + 1 + 1"
        by (auto simp: stem_graph_shape)
      then have "2 ^ (length ?gs + 2) \<le> h + 3" "2 ^ (length ?gs + 2) \<le> w + 3"
        using stem_dims [OF ne, of h] stem_dims [OF ne, of w] by auto
      with s show ?B by blast
    next
      assume ?B
      then obtain h w c where s: "input_shape a = [h, w, c]"
        and "2 ^ (length ?gs + 2) \<le> h + 3" "2 ^ (length ?gs + 2) \<le> w + 3"
        by blast
      then have "5 \<le> h" "5 \<le> w"
        "butlast ?gs \<noteq> [] \<longrightarrow>
               2 ^ length ?gs \<le> ((h + 1) div 2 - 3) div 2 + 1 + 1
               \<and> 2 ^ length ?gs \<le> ((w + 1) div 2 - 3) div 2 + 1 + 1"
        using stem_dims [OF ne, of h] stem_dims [OF ne, of w] by auto
      with s show ?A by (auto simp: stem_graph_shape)
    qed
    then show ?thesis by blast
  qed
  finally show ?thesis .
qed

lemma py_mul_error: "py_mul v k = Inl e \<Longrightarrow> e = TypeError"
  by (auto simp: py_mul_def split: pyval.splits)

lemma fire_block_error:
  assumes "fire_block cls x kw = Inl e"
  shows "e = TypeError \<or> e = KeyError (VStr ''n_filters'') \<or> e = FrameworkError"
proof -
  have "fire_reg cls kw \<noteq> Inl e'" for e'
    by (auto simp: fire_reg_def py_getitem_def map_of_eq_None_keys split: option.splits)
  with assms(1) show ?thesis
    unfolding fire_block_unfold
    by (auto simp: ebind_eq_Inl bind_positional_eq_Inr
          dest: bind_positional_error py_getitem_error Conv2D_call_error py_mul_error
                Concatenate_call_error)
qed

lemma fire_blocks_loop_error:
  assumes "fire_blocks_loop cls v mp bs x = Inl e" and "''reg'' \<in> set (keys mp)"
  shows "e = TypeError \<or> e = KeyError (VStr ''n_filters'') \<or> e = FrameworkError"
  using assms
proof (induction bs arbitrary: x)
  case Nil
  then show ?case by simp
next
  case (Cons b bs)
  from Cons.prems(1) consider
      "merge_kwargs [[(''init_weights'', v)], block_kwargs b, mp] = Inl e"
    | kw where "merge_kwargs [[(''init_weights'', v)], block_kwargs b, mp] = Inr kw"
        "fire_block cls x kw = Inl e"
    | kw y where "merge_kwargs [[(''init_weights'', v)], block_kwargs b, mp] = Inr kw"
        "fire_block cls x kw = Inr y" "fire_blocks_loop cls v mp bs y = Inl e"
    by (auto simp: ebind_eq_Inl)
  then show ?case
  proof cases
    case 1
    then show ?thesis by (auto dest: merge_kwargs_error)
  next
    case 2
    from 2(2) show ?thesis by (rule fire_block_error)
  next
    case 3
    from Cons.IH [OF 3(3) Cons.prems(2)] show ?thesis .
  qed
qed

lemma group_error:
  assumes "group cls x kw = Inl e" and "''reg'' \<in> set (keys kw)"
    and "''blocks'' \<in> set (keys kw)"
  shows "e = TypeError \<or> e = KeyError (VStr ''n_filters'') \<or> e = FrameworkError"
proof -
  let ?mp = "without_key ''init_weights'' kw"
  let ?iw = "if keyword_or_None kw ''init_weights'' = VNone then SqueezeNet_init_weights
             else keyword_or_None kw ''init_weights''"
  have r: "''reg'' \<in> set (keys ?mp)"
    using assms(2) by (auto simp: keys_def without_key_def)
  from assms(1) consider
      "bind_positional [''x''] kw = Inl e"
    | "py_getitem ?mp ''blocks'' = Inl e"
    | v where "py_getitem ?mp ''blocks'' = Inr v"
        "(case v of VBlocks bs \<Rightarrow> fire_blocks_loop cls ?iw ?mp bs x
                  | VDict d \<Rightarrow> (if d = [] then Inr x else Inl TypeError)
                  | _ \<Rightarrow> Inl TypeError) = Inl e"
    | y where "MaxPooling2D_call (3, 3) (2, 2) y = Inl e"
    unfolding group_def Let_def
    by (auto simp: ebind_eq_Inl bind_positional_eq_Inr)
  then show ?thesis
  proof cases
    case 1
    then show ?thesis by (auto dest: bind_positional_error)
  next
    case 2
    have "''blocks'' \<in> set (keys ?mp)"
      using assms(3) by (auto simp: keys_def without_key_def)
    with 2 show ?thesis
      by (auto simp: py_getitem_def map_of_eq_None_keys split: option.splits)
  next
    case 3
    then show ?thesis
      by (cases v) (auto dest: fire_blocks_loop_error [OF _ r] split: if_splits)
  next
    case 4
    then show ?thesis by (auto dest: MaxPooling2D_call_error)
  qed
qed

lemma groups_loop_error:
  assumes "groups_loop cls mp gs x = Inl e" and "''reg'' \<in> set (keys mp)"
  shows "e = TypeError \<or> e = KeyError (VStr ''n_filters'') \<or> e = FrameworkError"
  using assms
proof (induction gs arbitrary: x)
  case Nil
  then show ?case by simp
next
  case (Cons g gs)
  from Cons.prems(1) consider
      "merge_kwargs [[(''blocks'', g)], mp] = Inl e"
    | kw where "merge_kwargs [[(''blocks'', g)], mp] = Inr kw" "group cls x kw = Inl e"
    | kw y where "merge_kwargs [[(''blocks'', g)], mp] = Inr kw"
        "group cls x kw = Inr y" "groups_loop cls mp gs y = Inl e"
    by (auto simp: ebind_eq_Inl)
  then show ?case
  proof cases
    case 1
    then show ?thesis by (auto dest: merge_kwargs_error)
  next
    case 2
    from 2(1) have "''reg'' \<in> set (keys kw)" "''blocks'' \<in> set (keys kw)"
      using Cons.prems(2) by (auto simp: merge_kwargs_eq_Inr)
    with 2(2) show ?thesis by (rule group_error)
  next
    case 3
    from Cons.IH [OF 3(3) Cons.prems(2)] show ?thesis .
  qed
qed

lemma learner_after_pop_error:
  assumes "learner_after_pop cls mp dv items last0 x = Inl e" and "''reg'' \<in> set (keys mp)"
  shows "e = TypeError \<or> e = KeyError (VStr ''n_filters'') \<or> e = FrameworkError \<or> last0 = Inl e"
proof -
  from assms(1) consider
      "groups_loop cls mp items x = Inl e"
    | "last0 = Inl e"
    | b where "merge_kwargs [block_kwargs b, mp] = Inl e"
    | kw x1 where "fire_block cls x1 kw = Inl e"
    | x2 where "Dropout_call dv x2 = Inl e"
    unfolding learner_after_pop_def by (auto simp: ebind_eq_Inl)
  then show ?thesis
  proof cases
    case 1
    from groups_loop_error [OF 1 assms(2)] show ?thesis by auto
  next
    case 2
    then show ?thesis by simp
  next
    case 3
    then show ?thesis by (auto dest: merge_kwargs_error)
  next
    case 4
    from fire_block_error [OF 4] show ?thesis by auto
  next
    case 5
    then show ?thesis by (auto dest: Dropout_call_error)
  qed
qed

lemma learner_error:
  assumes "learner cls hp x [(''groups'', g), (''dropout'', VFloat d), (''reg'', rv)]
             = (hp', Inl e)"
  shows "ctor_error e
         \<and> (e = IndexError \<longrightarrow>
              (case g of VRef r \<Rightarrow> hp r = [] \<or> last (hp r) = [] | VBlocks ds \<Rightarrow> ds = []
               | _ \<Rightarrow> False))
         \<and> (e = KeyError (VInt 0) \<longrightarrow> (\<exists>ds. g = VBlocks ds))
         \<and> (e = AttributeError \<longrightarrow> \<not> has_pop g)"
proof -
  let ?kw = "[(''groups'', g), (''dropout'', VFloat d), (''reg'', rv)]"
  have rk: "''reg'' \<in> set (keys ?kw)" by simp
  have u: "learner cls hp x ?kw =
      (case g of
         VRef r \<Rightarrow>
           (case list_pop hp r of
              (h', Inl e) \<Rightarrow> (h', Inl e)
            | (h', Inr last_group) \<Rightarrow>
               (h', learner_after_pop cls ?kw (VFloat d) (map VBlocks (h' r))
                      (first_item last_group) x))
       | VBlocks ds \<Rightarrow>
           (if ds = [] then (hp, Inl IndexError)
            else (hp, learner_after_pop cls ?kw (VFloat d) (map VDict (butlast ds))
                      (Inl (KeyError (VInt 0))) x))
       | VDict d \<Rightarrow> (hp, Inl TypeError)
       | _ \<Rightarrow> (hp, Inl AttributeError))"
    by (simp add: learner_def bind_positional_def py_getitem_def)
  note r = assms [unfolded u]
  show ?thesis
  proof (cases g)
    case (VRef r)
    show ?thesis
    proof (cases "hp r")
      case Nil
      with r VRef show ?thesis
        by (auto simp: list_pop_def ctor_error_def has_pop_def)
    next
      case (Cons g0 gs0)
      with r VRef have
        "learner_after_pop cls ?kw (VFloat d) (map VBlocks (butlast (hp r)))
           (first_item (last (hp r))) x = Inl e"
        by (simp add: list_pop_def)
      from learner_after_pop_error [OF this rk] show ?thesis
        using VRef
        by (auto simp: ctor_error_def has_pop_def dest: first_item_error
              simp: first_item_def split: list.splits)
    qed
  next
    case (VBlocks ds)
    show ?thesis
    proof (cases "ds = []")
      case True
      with r VBlocks show ?thesis
        by (auto simp: ctor_error_def has_pop_def)
    next
      case False
      with r VBlocks have
        "learner_after_pop cls ?kw (VFloat d) (map VDict (butlast ds))
           (Inl (KeyError (VInt 0))) x = Inl e"
        by simp
      from learner_after_pop_error [OF this rk] show ?thesis
        using VBlocks by (auto simp: ctor_error_def has_pop_def)
    qed
  qed (use r in \<open>auto simp: ctor_error_def has_pop_def\<close>)
qed

lemma stem_error:
  assumes "stem self x [(''reg'', rv)] = Inl e"
  shows "e = FrameworkError"
  using assms unfolding stem_def
  by (auto simp: ebind_eq_Inl bind_positional_def py_getitem_def Composable_ReLU_def
        dest: Conv2D_call_error MaxPooling2D_call_error)

lemma classifier_error:
  assumes "classifier self x n [(''reg'', rv)] = Inl e"
  shows "e = FrameworkError"
  using assms unfolding classifier_def Let_def
  by (auto simp: ebind_eq_Inl bind_positional_def py_getitem_def Composable_ReLU_def
        dest: Conv2D_call_error GlobalAveragePooling2D_call_error Activation_call_error)

lemma SqueezeNet_init_error:
  assumes "SqueezeNet_init cls hp a = (hp', Inl e)"
  shows "ctor_error e
         \<and> (e = IndexError \<longrightarrow>
              (case groups a of VBlocks ds \<Rightarrow> ds = []
               | _ \<Rightarrow> hp (groups_ref a) = [] \<or> last (hp (groups_ref a)) = []))
         \<and> (e = KeyError (VInt 0) \<longrightarrow> (\<exists>ds. groups a = VBlocks ds))
         \<and> (e = AttributeError \<longrightarrow> \<not> has_pop (groups a) \<and> groups a \<noteq> VNone)"
proof -
  let ?g = "if groups a = VNone then VRef SqueezeNet_groups else groups a"
  from assms consider
      "e = FrameworkError"
    | x1 where "learner cls hp x1
            [(''groups'', ?g), (''dropout'', VFloat (dropout a)),
             (''reg'', reg_value (reg a))] = (hp', Inl e)"
    unfolding SqueezeNet_init_def Let_def Input_def
    by (auto simp: ebind_eq_Inl ebind_eq_Inr split: sum.splits prod.splits
          dest: stem_error classifier_error)
  then show ?thesis
  proof cases
    case 1
    then show ?thesis by (simp add: ctor_error_def)
  next
    case 2
    from learner_error [OF 2] show ?thesis
      by (cases "groups a") (auto simp: groups_ref_def has_pop_def)
  qed
qed

lemma trunk_fire_module:
  "trunk (fire_module n ki kr x) =
     trunk x @ [Conv2D n (1, 1) (1, 1) Same (Some ''relu'') ki kr,
                Conv2D (n * 4) (1, 1) (1, 1) Same None ki kr, ReLU, Concatenate]"
  by (simp add: fire_module_def Let_def)

lemma trunk_pooled: "trunk (pooled x) = trunk x @ [MaxPooling2D (3, 3) (2, 2)]"
  by (simp add: pooled_def)

lemma trunk_stem_graph:
  "trunk (stem_graph ki kr x) =
     trunk x @ [Conv2D 96 (7, 7) (2, 2) Same None ki kr, ReLU, MaxPooling2D (3, 3) (2, 2)]"
  by (simp add: stem_graph_def Let_def trunk_pooled)

lemma fire_blocks_of_fire_graph:
  "fire_blocks_of (fire_graph kr b x) = fire_blocks_of x @ [block_filters b]"
  by (simp add: fire_blocks_of_def fire_graph_def trunk_fire_module is_squeeze_def)

lemma fire_blocks_of_fold_fire:
  "fire_blocks_of (fold (fire_graph kr) bs x) = fire_blocks_of x @ map block_filters bs"
  by (induction bs arbitrary: x) (simp_all add: fire_blocks_of_fire_graph)

lemma fire_blocks_of_pooled: "fire_blocks_of (pooled x) = fire_blocks_of x"
  by (simp add: fire_blocks_of_def trunk_pooled is_squeeze_def)

lemma fire_blocks_of_group_graph:
  "fire_blocks_of (group_graph kr g x) = fire_blocks_of x @ map block_filters g"
  by (simp add: group_graph_def fire_blocks_of_pooled fire_blocks_of_fold_fire)

lemma fire_blocks_of_fold_group:
  "fire_blocks_of (fold (group_graph kr) gs x) = fire_blocks_of x @ map block_filters (concat gs)"
  by (induction gs arbitrary: x) (simp_all add: fire_blocks_of_group_graph)

lemma fire_blocks_of_stem_graph: "fire_blocks_of (stem_graph ki kr x) = fire_blocks_of x"
  by (simp add: fire_blocks_of_def trunk_stem_graph is_squeeze_def)

lemma fire_blocks_of_learner_graph:
  "fire_blocks_of (learner_graph kr d gs x) =
     fire_blocks_of x @ map block_filters (concat (butlast gs)) @ [block_filters (hd (last gs))]"
  by (simp add: learner_graph_def Let_def fire_blocks_of_def [of "Tensor l ins s" for l ins s]
        fire_blocks_of_def [symmetric] fire_blocks_of_fire_graph fire_blocks_of_fold_group
        is_squeeze_def)

lemma fire_blocks_of_classifier_graph:
  "fire_blocks_of (classifier_graph n ki kr x) = fire_blocks_of x"
  by (simp add: fire_blocks_of_def classifier_graph_def Let_def is_squeeze_def)

lemma fire_blocks_of_SqueezeNet_graph:
  "fire_blocks_of (SqueezeNet_graph a gs) =
     map block_filters (concat (butlast gs)) @ [block_filters (hd (last gs))]"
  by (simp add: SqueezeNet_graph_def fire_blocks_of_classifier_graph fire_blocks_of_learner_graph
        fire_blocks_of_stem_graph)
     (simp add: fire_blocks_of_def is_squeeze_def)

lemma pooling_stages_fire_graph: "pooling_stages (fire_graph kr b x) = pooling_stages x"
  by (simp add: pooling_stages_def fire_graph_def trunk_fire_module is_pooling_def)

lemma pooling_stages_fold_fire: "pooling_stages (fold (fire_graph kr) bs x) = pooling_stages x"
  by (induction bs arbitrary: x) (simp_all add: pooling_stages_fire_graph)

lemma pooling_stages_group_graph: "pooling_stages (group_graph kr g x) = pooling_stages x + 1"
  by (simp add: group_graph_def pooling_stages_def [of "pooled y" for y] trunk_pooled
        is_pooling_def pooling_stages_def [symmetric] pooling_stages_fold_fire)

lemma pooling_stages_fold_group:
  "pooling_stages (fold (group_graph kr) gs x) = pooling_stages x + length gs"
  by (induction gs arbitrary: x) (simp_all add: pooling_stages_group_graph)

lemma pooling_stages_SqueezeNet_graph:
  "pooling_stages (SqueezeNet_graph a gs) = 1 + length (butlast gs)"
proof -
  have s: "pooling_stages (stem_graph ki kr (Tensor InputLayer [] sh)) = 1" for ki kr sh
    by (simp add: pooling_stages_def trunk_stem_graph is_pooling_def)
  have l: "pooling_stages (learner_graph kr d gs x) = pooling_stages x + length (butlast gs)"
    for kr d x
    by (simp add: learner_graph_def Let_def pooling_stages_def [of "Tensor l ins s" for l ins s]
          pooling_stages_def [symmetric] is_pooling_def pooling_stages_fire_graph
          pooling_stages_fold_group)
  have c: "pooling_stages (classifier_graph n ki kr x) = pooling_stages x" for n ki kr x
    by (simp add: pooling_stages_def classifier_graph_def Let_def is_pooling_def)
  show ?thesis
    by (simp add: SqueezeNet_graph_def c l s)
qed

lemma layer_kinds_Tensor:
  "layer_kinds (Tensor l [y] s) = insert (layer_kind l) (layer_kinds y)"
  by (simp add: layer_kinds_def)

lemma layer_kinds_fire_graph: "layer_kinds (fire_graph kr b x) = fire_kinds \<union> layer_kinds x"
  by (auto simp: layer_kinds_def fire_graph_def fire_module_def Let_def layer_kind_def
        fire_kinds_def)

lemma layer_kinds_pooled: "layer_kinds (pooled x) = insert (''MaxPooling2D'', None) (layer_kinds x)"
  by (auto simp: layer_kinds_def pooled_def layer_kind_def)

lemma layer_kinds_fold_fire:
  "stem_kinds \<subseteq> layer_kinds x \<Longrightarrow> layer_kinds x \<subseteq> stem_kinds \<union> fire_kinds \<Longrightarrow>
     stem_kinds \<subseteq> layer_kinds (fold (fire_graph kr) bs x)
     \<and> layer_kinds (fold (fire_graph kr) bs x) \<subseteq> stem_kinds \<union> fire_kinds"
proof (induction bs arbitrary: x)
  case Nil
  then show ?case by simp
next
  case (Cons b bs)
  have "stem_kinds \<subseteq> layer_kinds (fire_graph kr b x)"
    "layer_kinds (fire_graph kr b x) \<subseteq> stem_kinds \<union> fire_kinds"
    using Cons.prems by (auto simp: layer_kinds_fire_graph)
  from Cons.IH [OF this] show ?case by simp
qed

lemma layer_kinds_group_graph:
  "stem_kinds \<subseteq> layer_kinds x \<Longrightarrow> layer_kinds x \<subseteq> stem_kinds \<union> fire_kinds \<Longrightarrow>
     stem_kinds \<subseteq> layer_kinds (group_graph kr g x)
     \<and> layer_kinds (group_graph kr g x) \<subseteq> stem_kinds \<union> fire_kinds"
  using layer_kinds_fold_fire [of x kr g]
  by (auto simp: group_graph_def layer_kinds_pooled stem_kinds_def)

lemma layer_kinds_fold_group:
  "stem_kinds \<subseteq> layer_kinds x \<Longrightarrow> layer_kinds x \<subseteq> stem_kinds \<union> fire_kinds \<Longrightarrow>
     stem_kinds \<subseteq> layer_kinds (fold (group_graph kr) gs x)
     \<and> layer_kinds (fold (group_graph kr) gs x) \<subseteq> stem_kinds \<union> fire_kinds"
proof (induction gs arbitrary: x)
  case Nil
  then show ?case by simp
next
  case (Cons g gs)
  from layer_kinds_group_graph [OF Cons.prems, of kr g] Cons.IH [of "group_graph kr g x"]
  show ?case by simp
qed

lemma layer_kinds_stem_graph:
  "layer_kinds (stem_graph ki kr (Tensor InputLayer [] sh)) = stem_kinds"
  by (auto simp: layer_kinds_def stem_graph_def pooled_def Let_def layer_kind_def stem_kinds_def)

lemma layer_kinds_learner_graph:
  assumes "stem_kinds \<subseteq> layer_kinds x" "layer_kinds x \<subseteq> stem_kinds \<union> fire_kinds"
  shows "layer_kinds (learner_graph kr d gs x) =
           insert (''Dropout'', None) (stem_kinds \<union> fire_kinds)"
proof -
  let ?y = "fold (group_graph kr) (butlast gs) x"
  from layer_kinds_fold_group [OF assms, of kr "butlast gs"]
  have "layer_kinds (fire_graph kr (hd (last gs)) ?y) = stem_kinds \<union> fire_kinds"
    by (auto simp: layer_kinds_fire_graph)
  then show ?thesis
    by (simp add: learner_graph_def Let_def layer_kinds_Tensor)
       (simp add: layer_kind_def)
qed

lemma layer_kinds_SqueezeNet_graph:
  "layer_kinds (SqueezeNet_graph a gs) =
     {(''InputLayer'', None), (''Conv2D'', None), (''Conv2D'', Some ''relu''), (''ReLU'', None),
      (''MaxPooling2D'', None), (''Concatenate'', None), (''Dropout'', None),
      (''GlobalAveragePooling2D'', None), (''Activation'', Some ''softmax'')}"
proof -
  let ?s = "stem_graph (Some (init_weights a)) (reg a) (Tensor InputLayer [] (input_shape a))"
  have "layer_kinds (learner_graph (reg a) (dropout a) gs ?s) =
          insert (''Dropout'', None) (stem_kinds \<union> fire_kinds)"
    by (rule layer_kinds_learner_graph) (simp_all add: layer_kinds_stem_graph)
  moreover have "layer_kinds (classifier_graph n ki kr x) =
      {(''Activation'', Some ''softmax''), (''GlobalAveragePooling2D'', None), (''ReLU'', None),
       (''Conv2D'', None)} \<union> layer_kinds x" for n ki kr x
    by (auto simp: layer_kinds_def classifier_graph_def Let_def layer_kind_def)
  ultimately show ?thesis
    by (auto simp: SqueezeNet_graph_def stem_kinds_def fire_kinds_def)
qed

lemma sum_list_softmax_fn:
  assumes "v \<noteq> []"
  shows "sum_list (softmax_fn v) = 1"
proof -
  have d: "sum_list (map (\<lambda>x. f x / c) xs) = sum_list (map f xs) / c" for f :: "real \<Rightarrow> real" and c xs
    by (induction xs) (simp_all add: add_divide_distrib)
  have p: "0 < sum_list (map exp xs)" if "xs \<noteq> []" for xs :: "real list"
    using that
  proof (induction xs)
    case Nil
    then show ?case by simp
  next
    case (Cons x xs)
    have "0 \<le> sum_list (map exp xs)"
      by (rule sum_list_nonneg) auto
    moreover have "0 < exp x" by simp
    ultimately show ?case by (simp add: add_pos_nonneg)
  qed
  from p [OF assms] show ?thesis
    by (simp add: softmax_fn_def d)
qed

lemma outputs_built: "outputs (built a gs) = Some (SqueezeNet_graph a gs)"
  by (simp add: outputs_def built_def Let_def)

lemma model_built:
  "model (built a gs) = Some (Tensor InputLayer [] (input_shape a), SqueezeNet_graph a gs)"
  by (simp add: built_def Let_def)

lemma table_ok_default: "table_ok SqueezeNet_groups_table"
  by (simp add: table_ok_def SqueezeNet_groups_table_def block_ok_def n_filters_def
        group_keywords_def last_keywords_def)

lemma table_ok_default_popped: "table_ok (butlast SqueezeNet_groups_table)"
  by (simp add: table_ok_def SqueezeNet_groups_table_def block_ok_def n_filters_def
        group_keywords_def last_keywords_def)

lemma default_construction:
  "SqueezeNet_init cls class_defined default_args =
     (class_defined(SqueezeNet_groups := butlast SqueezeNet_groups_table),
      Inr (built default_args SqueezeNet_groups_table))"
proof -
  have g: "groups_ref default_args = SqueezeNet_groups"
    by (simp add: groups_ref_def default_args_def)
  have t: "class_defined SqueezeNet_groups = SqueezeNet_groups_table"
    by (simp add: class_defined_def)
  show ?thesis
    unfolding SqueezeNet_init_eq_Inr g t
    by (simp add: table_ok_default)
       (simp add: default_args_def keras_initializers_def SqueezeNet_groups_table_def)
qed

lemma second_default_construction:
  "SqueezeNet_init cls (class_defined(SqueezeNet_groups := butlast SqueezeNet_groups_table))
       default_args =
     (class_defined(SqueezeNet_groups := butlast (butlast SqueezeNet_groups_table)),
      Inr (built default_args (butlast SqueezeNet_groups_table)))"
proof -
  have g: "groups_ref default_args = SqueezeNet_groups"
    by (simp add: groups_ref_def default_args_def)
  show ?thesis
    unfolding SqueezeNet_init_eq_Inr g
    by (simp add: table_ok_default_popped)
       (simp add: default_args_def keras_initializers_def SqueezeNet_groups_table_def)
qed

lemma used_blocks_have_n_filters:
  assumes "table_ok gs" and "b \<in> set (concat (butlast gs)) \<or> b = hd (last gs)"
  shows "map_of b ''n_filters'' = Some (int (block_filters b)) \<and> 0 < block_filters b"
proof -
  from assms obtain R where "block_ok R b"
    by (auto simp: table_ok_def)
  from block_ok_filters [OF this] show ?thesis by auto
qed

text \<open>Constructions that raise in the Python of this file, after the stem was built.\<close>

lemma stem_built:
  assumes "input_shape a = [h, w, c]" and "5 \<le> h" and "5 \<le> w"
    and "init_weights a \<in> set keras_initializers"
  shows "stem (Composable_init (init_weights a) (reg a) (relu a))
           (Tensor InputLayer [] (input_shape a)) [(''reg'', reg_value (reg a))] =
         Inr (stem_graph (Some (init_weights a)) (reg a) (Tensor InputLayer [] (input_shape a)))"
  using assms by (simp add: stem_eq_Inr Composable_init_def initializers_get_VStr)

lemma last_group_empty:
  assumes "groups a = VRef r" and "hp r = [[]]"
    and "input_shape a = [h, w, c]" and "5 \<le> h" and "5 \<le> w"
    and "init_weights a \<in> set keras_initializers"
  shows "SqueezeNet_init cls hp a = (hp(r := []), Inl IndexError)"
proof -
  have "learner cls hp x
      [(''groups'', VRef r), (''dropout'', VFloat (dropout a)), (''reg'', reg_value (reg a))] =
      (hp(r := []), Inl IndexError)" for x
    using assms(2)
    by (simp add: learner_def learner_after_pop_def bind_positional_def py_getitem_def
          list_pop_def first_item_def)
  with stem_built [OF assms(3-6)] assms(1) show ?thesis
    by (simp add: SqueezeNet_init_def Let_def Input_def)
qed

lemma tuple_has_no_pop:
  assumes "groups a = VTuple xs"
    and "input_shape a = [h, w, c]" and "5 \<le> h" and "5 \<le> w"
    and "init_weights a \<in> set keras_initializers"
  shows "SqueezeNet_init cls hp a = (hp, Inl AttributeError)"
proof -
  have "learner cls hp x
      [(''groups'', VTuple xs), (''dropout'', VFloat (dropout a)), (''reg'', reg_value (reg a))] =
      (hp, Inl AttributeError)" for x
    by (simp add: learner_def bind_positional_def py_getitem_def)
  with stem_built [OF assms(2-5)] assms(1) show ?thesis
    by (simp add: SqueezeNet_init_def Let_def Input_def)
qed

lemma flat_list_of_one_block:
  assumes "groups a = VBlocks [b]"
    and "input_shape a = [h, w, c]" and "5 \<le> h" and "5 \<le> w"
    and "init_weights a \<in> set keras_initializers"
  shows "SqueezeNet_init cls hp a = (hp, Inl (KeyError (VInt 0)))"
proof -
  have "learner cls hp x
      [(''groups'', VBlocks [b]), (''dropout'', VFloat (dropout a)), (''reg'', reg_value (reg a))] =
      (hp, Inl (KeyError (VInt 0)))" for x
    by (simp add: learner_def learner_after_pop_def bind_positional_def py_getitem_def)
  with stem_built [OF assms(2-5)] assms(1) show ?thesis
    by (simp add: SqueezeNet_init_def Let_def Input_def)
qed

text \<open>The dropout layers, the initializers and the regularizers of the graphs.\<close>

lemma dropout_rates_Tensor:
  "dropout_rates (Tensor l [y] s) = dropout_rates y @ (case l of Dropout r \<Rightarrow> [r] | _ \<Rightarrow> [])"
  by (simp add: dropout_rates_def)

lemma dropout_rates_fire_graph: "dropout_rates (fire_graph kr b x) = dropout_rates x"
  by (simp add: dropout_rates_def fire_graph_def trunk_fire_module)

lemma dropout_rates_fold_fire: "dropout_rates (fold (fire_graph kr) bs x) = dropout_rates x"
  by (induction bs arbitrary: x) (simp_all add: dropout_rates_fire_graph)

lemma dropout_rates_group_graph: "dropout_rates (group_graph kr g x) = dropout_rates x"
  by (simp add: group_graph_def dropout_rates_def [of "pooled y" for y] trunk_pooled
        dropout_rates_def [symmetric] dropout_rates_fold_fire)

lemma dropout_rates_fold_group: "dropout_rates (fold (group_graph kr) gs x) = dropout_rates x"
  by (induction gs arbitrary: x) (simp_all add: dropout_rates_group_graph)

lemma dropout_rates_SqueezeNet_graph: "dropout_rates (SqueezeNet_graph a gs) = [dropout a]"
proof -
  have s: "dropout_rates (stem_graph ki kr (Tensor InputLayer [] sh)) = []" for ki kr sh
    by (simp add: dropout_rates_def trunk_stem_graph)
  have l: "dropout_rates (learner_graph kr d gs x) = dropout_rates x @ [d]" for kr d x
    by (simp add: learner_graph_def Let_def dropout_rates_Tensor dropout_rates_fire_graph
          dropout_rates_fold_group)
  have c: "dropout_rates (classifier_graph n ki kr x) = dropout_rates x" for n ki kr x
    by (simp add: dropout_rates_def classifier_graph_def Let_def)
  show ?thesis
    by (simp add: SqueezeNet_graph_def c l s)
qed

lemma conv_initializers_fire_graph:
  "conv_initializers (fire_graph kr b x) =
     insert (Some ''glorot_uniform'') (conv_initializers x)"
  by (auto simp: conv_initializers_def fire_graph_def fire_module_def Let_def is_conv_def)

lemma conv_initializers_pooled: "conv_initializers (pooled x) = conv_initializers x"
  by (simp add: conv_initializers_def pooled_def is_conv_def)

lemma conv_initializers_fold_fire:
  "conv_initializers x \<subseteq> conv_initializers (fold (fire_graph kr) bs x)
   \<and> conv_initializers (fold (fire_graph kr) bs x)
       \<subseteq> insert (Some ''glorot_uniform'') (conv_initializers x)"
proof (induction bs arbitrary: x)
  case Nil
  then show ?case by auto
next
  case (Cons b bs)
  from Cons.IH [of "fire_graph kr b x"] show ?case
    by (auto simp: conv_initializers_fire_graph)
qed

lemma conv_initializers_group_graph:
  "conv_initializers x \<subseteq> conv_initializers (group_graph kr g x)
   \<and> conv_initializers (group_graph kr g x)
       \<subseteq> insert (Some ''glorot_uniform'') (conv_initializers x)"
  using conv_initializers_fold_fire [of x kr g]
  by (simp add: group_graph_def conv_initializers_pooled)

lemma conv_initializers_fold_group:
  "conv_initializers x \<subseteq> conv_initializers (fold (group_graph kr) gs x)
   \<and> conv_initializers (fold (group_graph kr) gs x)
       \<subseteq> insert (Some ''glorot_uniform'') (conv_initializers x)"
proof (induction gs arbitrary: x)
  case Nil
  then show ?case by auto
next
  case (Cons g gs)
  from Cons.IH [of "group_graph kr g x"] conv_initializers_group_graph [of x kr g]
  show ?case by auto
qed

lemma conv_initializers_SqueezeNet_graph:
  "conv_initializers (SqueezeNet_graph a gs) = {Some (init_weights a), Some ''glorot_uniform''}"
proof -
  have s: "conv_initializers (stem_graph ki kr (Tensor InputLayer [] sh)) = {ki}" for ki kr sh
    by (simp add: conv_initializers_def stem_graph_def pooled_def Let_def is_conv_def)
  have l: "conv_initializers (learner_graph kr d gs x) =
             insert (Some ''glorot_uniform'') (conv_initializers x)" for kr d x
  proof -
    have "conv_initializers (Tensor (Dropout d) [y] s) = conv_initializers y" for y s
      by (simp add: conv_initializers_def is_conv_def)
    with conv_initializers_fold_group [of x kr "butlast gs"] show ?thesis
      by (auto simp: learner_graph_def Let_def conv_initializers_fire_graph)
  qed
  have c: "conv_initializers (classifier_graph n ki kr x) = insert ki (conv_initializers x)"
    for n ki kr x
    by (simp add: conv_initializers_def classifier_graph_def Let_def is_conv_def)
  show ?thesis
    by (auto simp: SqueezeNet_graph_def c l s)
qed

lemma conv_regularizers_fire_graph:
  "conv_regularizers (fire_graph kr b x) = insert kr (conv_regularizers x)"
  by (auto simp: conv_regularizers_def fire_graph_def fire_module_def Let_def is_conv_def)

lemma conv_regularizers_pooled: "conv_regularizers (pooled x) = conv_regularizers x"
  by (simp add: conv_regularizers_def pooled_def is_conv_def)

lemma conv_regularizers_fold_fire:
  "conv_regularizers x \<subseteq> conv_regularizers (fold (fire_graph kr) bs x)
   \<and> conv_regularizers (fold (fire_graph kr) bs x) \<subseteq> insert kr (conv_regularizers x)"
proof (induction bs arbitrary: x)
  case Nil
  then show ?case by auto
next
  case (Cons b bs)
  from Cons.IH [of "fire_graph kr b x"] show ?case
    by (auto simp: conv_regularizers_fire_graph)
qed

lemma conv_regularizers_group_graph:
  "conv_regularizers x \<subseteq> conv_regularizers (group_graph kr g x)
   \<and> conv_regularizers (group_graph kr g x) \<subseteq> insert kr (conv_regularizers x)"
  using conv_regularizers_fold_fire [of x kr g]
  by (simp add: group_graph_def conv_regularizers_pooled)

lemma conv_regularizers_fold_group:
  "conv_regularizers x \<subseteq> conv_regularizers (fold (group_graph kr) gs x)
   \<and> conv_regularizers (fold (group_graph kr) gs x) \<subseteq> insert kr (conv_regularizers x)"
proof (induction gs arbitrary: x)
  case Nil
  then show ?case by auto
next
  case (Cons g gs)
  from Cons.IH [of "group_graph kr g x"] conv_regularizers_group_graph [of x kr g]
  show ?case by auto
qed

lemma conv_regularizers_SqueezeNet_graph:
  "conv_regularizers (SqueezeNet_graph a gs) = {reg a}"
proof -
  have s: "conv_regularizers (stem_graph ki kr (Tensor InputLayer [] sh)) = {kr}" for ki kr sh
    by (simp add: conv_regularizers_def stem_graph_def pooled_def Let_def is_conv_def)
  have l: "conv_regularizers (learner_graph kr d gs x) = insert kr (conv_regularizers x)"
    for kr d x
  proof -
    have "conv_regularizers (Tensor (Dropout d) [y] s) = conv_regularizers y" for y s
      by (simp add: conv_regularizers_def is_conv_def)
    with conv_regularizers_fold_group [of x kr "butlast gs"] show ?thesis
      by (auto simp: learner_graph_def Let_def conv_regularizers_fire_graph)
  qed
  have c: "conv_regularizers (classifier_graph n ki kr x) = insert kr (conv_regularizers x)"
    for n ki kr x
    by (simp add: conv_regularizers_def classifier_graph_def Let_def is_conv_def)
  show ?thesis
    by (auto simp: SqueezeNet_graph_def c l s)
qed

lemma fire_reg_inherited:
  "''reg'' \<notin> set (keys kw) \<Longrightarrow> fire_reg cls kw = Inr (SqueezeNet_reg cls)"
  by (auto simp: fire_reg_def keys_def without_key_def)

section \<open>The claims\<close>

text \<open>
  C10. The stem is one convolution (96 filters, 7x7, stride 2, padding same) followed by
  \<^verbatim>\<open>Composable.ReLU\<close> and one max pooling (3x3, stride 2). On an input of height and
  width at least 5 it returns, and the height and width of what it returns are strictly
  smaller than those of its input: \<open>h\<close> becomes \<open>((h + 1) div 2 - 3) div 2 + 1\<close>.
\<close>

theorem stem_reduces_resolution:
  assumes "shape inputs = [h, w, c]" and "5 \<le> h" and "5 \<le> w"
    and "''self'' \<notin> set (keys kw)" and "''inputs'' \<notin> set (keys kw)"
    and "map_of kw ''reg'' = Some rv" and "regularizers_get rv = Inr kr"
    and "initializers_get (self_init_weights self) = Inr ki"
  shows "stem self inputs kw =
           Inr (Tensor (MaxPooling2D (3, 3) (2, 2))
                  [Tensor ReLU
                     [Tensor (Conv2D 96 (7, 7) (2, 2) Same None ki kr) [inputs]
                        [(h + 1) div 2, (w + 1) div 2, 96]]
                     [(h + 1) div 2, (w + 1) div 2, 96]]
                  [((h + 1) div 2 - 3) div 2 + 1, ((w + 1) div 2 - 3) div 2 + 1, 96])
         \<and> ((h + 1) div 2 - 3) div 2 + 1 < h \<and> ((w + 1) div 2 - 3) div 2 + 1 < w"
proof -
  have "stem self inputs kw = Inr (stem_graph ki kr inputs)"
    using assms by (simp add: stem_eq_Inr)
  moreover have "((n + 1) div 2 - 3) div 2 + 1 < n" if "5 \<le> n" for n :: nat
    using that by arith
  ultimately show ?thesis
    using assms(1,2,3) by (simp add: stem_graph_def pooled_def Let_def)
qed

text \<open>On the default input shape the stem takes 224 to 112 to 55.\<close>

theorem stem_reduces_resolution_witness:
  "stem (Composable_init ''glorot_uniform'' (Some (l2 0.001)) None)
      (Tensor InputLayer [] [224, 224, 3]) [(''reg'', VReg (l2 0.001))] =
     Inr (Tensor (MaxPooling2D (3, 3) (2, 2))
            [Tensor ReLU
               [Tensor (Conv2D 96 (7, 7) (2, 2) Same None (Some ''glorot_uniform'')
                          (Some (l2 0.001)))
                  [Tensor InputLayer [] [224, 224, 3]] [112, 112, 96]]
               [112, 112, 96]]
            [55, 55, 96])
   \<and> (55 :: nat) < 224"
  using stem_reduces_resolution [of "Tensor InputLayer [] [224, 224, 3]" 224 224 3
      "[(''reg'', VReg (l2 0.001))]" "VReg (l2 0.001)" "Some (l2 0.001)"
      "Composable_init ''glorot_uniform'' (Some (l2 0.001)) None" "Some ''glorot_uniform''"]
  by (simp add: regularizers_get_def initializers_get_def keras_initializers_def
        Composable_init_def)

text \<open>
  C5. Whenever \<^verbatim>\<open>fire_block\<close> returns, called with \<^verbatim>\<open>n_filters\<close> equal to \<open>n\<close>, the
  tensor it returns is the concatenation of two branches over one squeeze convolution:
  the squeeze has \<open>n\<close> filters, kernel 1x1, stride 1 and ReLU activation; the branches
  are a 1x1 and a 3x3 convolution of \<open>4 n\<close> filters each, each followed by
  \<^verbatim>\<open>Composable.ReLU\<close>.
\<close>

theorem fire_block_structure:
  assumes "fire_block cls x kw = Inr y"
  shows "\<exists>n ki kr h w c squeeze.
           map_of (without_key ''init_weights'' kw) ''n_filters'' = Some (VInt n) \<and> 0 < n
           \<and> shape x = [h, w, c]
           \<and> squeeze =
               Tensor (Conv2D (nat n) (1, 1) (1, 1) Same (Some ''relu'') ki kr) [x] [h, w, nat n]
           \<and> y = Tensor Concatenate
                   [Tensor ReLU
                      [Tensor (Conv2D (nat (n * 4)) (1, 1) (1, 1) Same None ki kr) [squeeze]
                         [h, w, nat (n * 4)]]
                      [h, w, nat (n * 4)],
                    Tensor ReLU
                      [Tensor (Conv2D (nat (n * 4)) (3, 3) (1, 1) Same None ki kr) [squeeze]
                         [h, w, nat (n * 4)]]
                      [h, w, nat (n * 4)]]
                   [h, w, nat (n * 4) + nat (n * 4)]"
proof -
  from fire_block_returns [OF assms] obtain n rv ki kr h w c where
    n: "map_of (without_key ''init_weights'' kw) ''n_filters'' = Some (VInt n)" "0 < n"
    and sx: "shape x = [h, w, c]" and y: "y = fire_module (nat n) ki kr x"
    by blast
  have n4: "nat (n * 4) = nat n * 4"
    using n(2) by (simp add: nat_mult_distrib)
  from y sx have "y = Tensor Concatenate
                   [Tensor ReLU
                      [Tensor (Conv2D (nat (n * 4)) (1, 1) (1, 1) Same None ki kr)
                         [Tensor (Conv2D (nat n) (1, 1) (1, 1) Same (Some ''relu'') ki kr) [x]
                            [h, w, nat n]]
                         [h, w, nat (n * 4)]]
                      [h, w, nat (n * 4)],
                    Tensor ReLU
                      [Tensor (Conv2D (nat (n * 4)) (3, 3) (1, 1) Same None ki kr)
                         [Tensor (Conv2D (nat n) (1, 1) (1, 1) Same (Some ''relu'') ki kr) [x]
                            [h, w, nat n]]
                         [h, w, nat (n * 4)]]
                      [h, w, nat (n * 4)]]
                   [h, w, nat (n * 4) + nat (n * 4)]"
    unfolding n4 by (simp add: fire_module_def Let_def del: One_nat_def)
  with n sx show ?thesis by blast
qed

text \<open>A fire block of 16 filters on a 13x13x96 tensor.\<close>

theorem fire_block_structure_witness:
  "fire_block None (Tensor InputLayer [] [13, 13, 96]) [(''n_filters'', VInt 16), (''reg'', VNone)]
     = Inr (fire_module 16 (Some ''glorot_uniform'') None (Tensor InputLayer [] [13, 13, 96]))
   \<and> (\<exists>n ki kr h w c squeeze.
           map_of (without_key ''init_weights'' [(''n_filters'', VInt 16), (''reg'', VNone)])
             ''n_filters'' = Some (VInt n) \<and> 0 < n
           \<and> shape (Tensor InputLayer [] [13, 13, 96]) = [h, w, c]
           \<and> squeeze =
               Tensor (Conv2D (nat n) (1, 1) (1, 1) Same (Some ''relu'') ki kr)
                 [Tensor InputLayer [] [13, 13, 96]] [h, w, nat n]
           \<and> fire_module 16 (Some ''glorot_uniform'') None (Tensor InputLayer [] [13, 13, 96]) =
               Tensor Concatenate
                   [Tensor ReLU
                      [Tensor (Conv2D (nat (n * 4)) (1, 1) (1, 1) Same None ki kr) [squeeze]
                         [h, w, nat (n * 4)]]
                      [h, w, nat (n * 4)],
                    Tensor ReLU
                      [Tensor (Conv2D (nat (n * 4)) (3, 3) (1, 1) Same None ki kr) [squeeze]
                         [h, w, nat (n * 4)]]
                      [h, w, nat (n * 4)]]
                   [h, w, nat (n * 4) + nat (n * 4)])"
proof -
  have r: "fire_block None (Tensor InputLayer [] [13, 13, 96])
             [(''n_filters'', VInt 16), (''reg'', VNone)]
           = Inr (fire_module (nat 16) (Some ''glorot_uniform'') None
                    (Tensor InputLayer [] [13, 13, 96]))"
    by (rule fire_block_succeeds [where rv = VNone and h = 13 and w = 13 and c = 96])
       (simp_all add: without_key_def fire_reg_def py_getitem_def fire_init_def
          keyword_or_None_def regularizers_get_def)
  then have r': "fire_block None (Tensor InputLayer [] [13, 13, 96])
             [(''n_filters'', VInt 16), (''reg'', VNone)]
           = Inr (fire_module 16 (Some ''glorot_uniform'') None
                    (Tensor InputLayer [] [13, 13, 96]))"
    by simp
  from fire_block_structure [OF r'] r' show ?thesis by blast
qed

text \<open>
  C4. A construction that returns has called, in this order and on each other's results,
  \<^verbatim>\<open>Input\<close> on the given shape, \<^verbatim>\<open>stem\<close>, \<^verbatim>\<open>learner\<close> and \<^verbatim>\<open>classifier\<close>; the
  model is made of the input tensor and of what \<^verbatim>\<open>classifier\<close> returned, with nothing
  in between.
\<close>

theorem constructor_is_stem_learner_classifier:
  assumes "SqueezeNet_init cls hp a = (hp', Inr m)"
  shows "\<exists>inputs x1 x2 self' out.
           Input (input_shape a) = Inr inputs
           \<and> stem (Composable_init (init_weights a) (reg a) (relu a)) inputs
                [(''reg'', reg_value (reg a))] = Inr x1
           \<and> learner cls hp x1
                [(''groups'', VRef (groups_ref a)), (''dropout'', VFloat (dropout a)),
                 (''reg'', reg_value (reg a))] = (hp', Inr x2)
           \<and> classifier (Composable_init (init_weights a) (reg a) (relu a)) x2
                (VInt (n_classes a)) [(''reg'', reg_value (reg a))] = Inr (self', out)
           \<and> model m = Some (inputs, out)"
  using assms unfolding SqueezeNet_init_unfold Input_def by auto

text \<open>The construction with default arguments, right after the class is defined.\<close>

theorem constructor_is_stem_learner_classifier_witness:
  "SqueezeNet_init None class_defined default_args =
     (class_defined(SqueezeNet_groups := butlast SqueezeNet_groups_table),
      Inr (built default_args SqueezeNet_groups_table))
   \<and> (\<exists>inputs x1 x2 self' out.
           Input (input_shape default_args) = Inr inputs
           \<and> stem (Composable_init (init_weights default_args) (reg default_args)
                     (relu default_args)) inputs
                [(''reg'', reg_value (reg default_args))] = Inr x1
           \<and> learner None class_defined x1
                [(''groups'', VRef (groups_ref default_args)),
                 (''dropout'', VFloat (dropout default_args)),
                 (''reg'', reg_value (reg default_args))] =
               (class_defined(SqueezeNet_groups := butlast SqueezeNet_groups_table), Inr x2)
           \<and> classifier (Composable_init (init_weights default_args) (reg default_args)
                     (relu default_args)) x2
                (VInt (n_classes default_args)) [(''reg'', reg_value (reg default_args))] =
               Inr (self', out)
           \<and> model (built default_args SqueezeNet_groups_table) = Some (inputs, out))"
  using constructor_is_stem_learner_classifier [OF default_construction [of None]]
    default_construction [of None]
  by blast

text \<open>
  C2, as the code has it. In a construction that returns, the fire blocks along the
  model are, in order, one for every block of every group but the last, then one for the
  first block of the last group; each has the \<^verbatim>\<open>'n_filters'\<close> of its block as the
  filter count of its squeeze convolution. The other blocks of the last group are not
  used.
\<close>

theorem fire_blocks_follow_table:
  assumes "SqueezeNet_init cls hp a = (hp', Inr m)"
  shows "\<exists>out. outputs m = Some out
           \<and> fire_blocks_of out =
               map block_filters (concat (butlast (hp (groups_ref a))))
               @ [block_filters (hd (last (hp (groups_ref a))))]
           \<and> list_all (\<lambda>b. map_of b ''n_filters'' = Some (int (block_filters b)))
               (concat (butlast (hp (groups_ref a))) @ [hd (last (hp (groups_ref a)))])"
proof -
  from assms have t: "table_ok (hp (groups_ref a))" and m: "m = built a (hp (groups_ref a))"
    by (simp_all add: SqueezeNet_init_eq_Inr)
  from used_blocks_have_n_filters [OF t]
  have "list_all (\<lambda>b. map_of b ''n_filters'' = Some (int (block_filters b)))
               (concat (butlast (hp (groups_ref a))) @ [hd (last (hp (groups_ref a)))])"
    unfolding list_all_iff by auto
  then show ?thesis
    by (simp add: m outputs_built fire_blocks_of_SqueezeNet_graph)
qed

text \<open>The class table gives eight fire blocks: its last group holds one block.\<close>

theorem fire_blocks_follow_table_witness:
  "SqueezeNet_init None class_defined default_args =
     (class_defined(SqueezeNet_groups := butlast SqueezeNet_groups_table),
      Inr (built default_args SqueezeNet_groups_table))
   \<and> (\<exists>out. outputs (built default_args SqueezeNet_groups_table) = Some out
           \<and> fire_blocks_of out = [16, 16, 32, 32, 48, 48, 64, 64])"
proof -
  have g: "groups_ref default_args = SqueezeNet_groups"
    by (simp add: groups_ref_def default_args_def)
  have t: "class_defined SqueezeNet_groups = SqueezeNet_groups_table"
    by (simp add: class_defined_def)
  have "map block_filters (concat (butlast SqueezeNet_groups_table))
          @ [block_filters (hd (last SqueezeNet_groups_table))]
        = [16, 16, 32, 32, 48, 48, 64, 64]"
    by (simp add: SqueezeNet_groups_table_def block_filters_def n_filters_def)
  with fire_blocks_follow_table [OF default_construction [of None]]
    default_construction [of None]
  show ?thesis unfolding g t by auto
qed

text \<open>
  C2 as stated fails when the last group holds more than one block: the table
  \<^verbatim>\<open>[[{'n_filters': 16}], [{'n_filters': 64}, {'n_filters': 32}]]\<close> has three blocks and
  the model built from it has two fire blocks, of 16 and of 64 filters
  (\<^verbatim>\<open>learner\<close> uses \<^verbatim>\<open>last[0]\<close> only).
\<close>

theorem last_group_extra_blocks_unused:
  "map_option fire_blocks_of
     (constructed
        (SqueezeNet_init None
           (class_defined(1 := [[n_filters 16], [n_filters 64, n_filters 32]]))
           (default_args\<lparr>groups := VRef 1\<rparr>)))
     = Some [16, 64]
   \<and> length (concat [[n_filters 16], [n_filters 64, n_filters 32]]) = 3"
proof -
  let ?T = "[[n_filters 16], [n_filters 64, n_filters 32]]"
  let ?a = "default_args\<lparr>groups := VRef 1\<rparr>"
  let ?hp = "class_defined(1 := ?T)"
  have g: "groups_ref ?a = 1"
    by (simp add: groups_ref_def)
  have t: "?hp 1 = ?T"
    by simp
  have ok: "table_ok ?T"
    by (simp add: table_ok_def block_ok_def n_filters_def group_keywords_def last_keywords_def)
  have "SqueezeNet_init None ?hp ?a = (?hp(1 := butlast ?T), Inr (built ?a ?T))"
    unfolding SqueezeNet_init_eq_Inr g t
    by (simp add: ok del: fun_upd_apply) (simp add: default_args_def keras_initializers_def)
  then have "constructed (SqueezeNet_init None ?hp ?a) = Some (SqueezeNet_graph ?a ?T)"
    by (simp add: constructed_def outputs_built)
  then show ?thesis
    by (simp add: fire_blocks_of_SqueezeNet_graph block_filters_def n_filters_def)
qed

text \<open>
  C3. A construction that returns leaves the list of groups it was given without its
  last group: the list of the caller, or the class attribute \<^verbatim>\<open>SqueezeNet.groups\<close>
  when \<^verbatim>\<open>groups\<close> was omitted. A second construction with the same arguments
  therefore has one pooling stage, that is one fire group, fewer: the model of the first
  has as many pooling stages as the list had groups (the stem's, and one for each group
  but the last).
\<close>

theorem second_construction_one_group_fewer:
  assumes "SqueezeNet_init cls hp a = (hp1, Inr m1)"
    and "SqueezeNet_init cls hp1 a = (hp2, Inr m2)"
  shows "hp1 = hp(groups_ref a := butlast (hp (groups_ref a)))
         \<and> (groups a = VNone \<longrightarrow> groups_ref a = SqueezeNet_groups)
         \<and> (\<exists>o1 o2. outputs m1 = Some o1 \<and> outputs m2 = Some o2
               \<and> pooling_stages o1 = length (hp (groups_ref a))
               \<and> pooling_stages o2 + 1 = pooling_stages o1)"
proof -
  let ?gs = "hp (groups_ref a)"
  from assms(1) have t1: "table_ok ?gs" and h1: "hp1 = hp(groups_ref a := butlast ?gs)"
    and m1: "m1 = built a ?gs"
    by (simp_all add: SqueezeNet_init_eq_Inr)
  from assms(2) have t2: "table_ok (hp1 (groups_ref a))" and m2: "m2 = built a (hp1 (groups_ref a))"
    by (simp_all add: SqueezeNet_init_eq_Inr)
  from h1 have p: "hp1 (groups_ref a) = butlast ?gs" by simp
  from t1 have ne1: "?gs \<noteq> []" by (simp add: table_ok_def)
  from t2 have ne2: "butlast ?gs \<noteq> []" by (simp add: table_ok_def p)
  have l1: "1 + length (butlast ?gs) = length ?gs" using ne1 by simp
  have "2 \<le> length ?gs"
    using ne2 by (cases ?gs; cases "tl ?gs") (auto split: if_splits)
  then have l2: "1 + length (butlast (butlast ?gs)) + 1 = length ?gs" by simp
  show ?thesis
    using h1 l1 l2
    by (simp add: m1 m2 p outputs_built pooling_stages_SqueezeNet_graph groups_ref_def)
qed

text \<open>
  Two constructions with default arguments: three pooling stages, then two, and the class
  attribute loses a group each time.
\<close>

theorem second_construction_one_group_fewer_witness:
  "SqueezeNet_init None class_defined default_args =
     (class_defined(SqueezeNet_groups := butlast SqueezeNet_groups_table),
      Inr (built default_args SqueezeNet_groups_table))
   \<and> SqueezeNet_init None (class_defined(SqueezeNet_groups := butlast SqueezeNet_groups_table))
        default_args =
     (class_defined(SqueezeNet_groups := butlast (butlast SqueezeNet_groups_table)),
      Inr (built default_args (butlast SqueezeNet_groups_table)))
   \<and> groups_ref default_args = SqueezeNet_groups
   \<and> (\<exists>o1 o2. outputs (built default_args SqueezeNet_groups_table) = Some o1
         \<and> outputs (built default_args (butlast SqueezeNet_groups_table)) = Some o2
         \<and> pooling_stages o1 = 3 \<and> pooling_stages o2 = 2)"
proof -
  have g: "groups_ref default_args = SqueezeNet_groups"
    by (simp add: groups_ref_def default_args_def)
  have t: "class_defined SqueezeNet_groups = SqueezeNet_groups_table"
    by (simp add: class_defined_def)
  have l: "length SqueezeNet_groups_table = 3"
    by (simp add: SqueezeNet_groups_table_def)
  from second_construction_one_group_fewer
    [OF default_construction [of None] second_default_construction [of None]]
  have "\<exists>o1 o2. outputs (built default_args SqueezeNet_groups_table) = Some o1
         \<and> outputs (built default_args (butlast SqueezeNet_groups_table)) = Some o2
         \<and> pooling_stages o1 = 3 \<and> pooling_stages o2 + 1 = pooling_stages o1"
    unfolding g t l by blast
  then have "\<exists>o1 o2. outputs (built default_args SqueezeNet_groups_table) = Some o1
         \<and> outputs (built default_args (butlast SqueezeNet_groups_table)) = Some o2
         \<and> pooling_stages o1 = 3 \<and> pooling_stages o2 = 2"
    by auto
  with default_construction [of None] second_default_construction [of None] g
  show ?thesis by blast
qed

text \<open>
  C9. The layers of a constructed model are of these kinds and of no other: the input
  placeholder, Conv2D (without activation, or with \<^verbatim>\<open>'relu'\<close>), ReLU, MaxPooling2D,
  Concatenate, Dropout, GlobalAveragePooling2D, and Activation \<^verbatim>\<open>'softmax'\<close>; every
  model has all of them.
\<close>

theorem layers_come_from_the_catalog:
  assumes "SqueezeNet_init cls hp a = (hp', Inr m)"
  shows "\<exists>out. outputs m = Some out
           \<and> layer_kinds out =
               {(''InputLayer'', None), (''Conv2D'', None), (''Conv2D'', Some ''relu''),
                (''ReLU'', None), (''MaxPooling2D'', None), (''Concatenate'', None),
                (''Dropout'', None), (''GlobalAveragePooling2D'', None),
                (''Activation'', Some ''softmax'')}"
proof -
  from assms have "m = built a (hp (groups_ref a))"
    by (simp add: SqueezeNet_init_eq_Inr)
  then show ?thesis
    by (simp add: outputs_built layer_kinds_SqueezeNet_graph)
qed

text \<open>The kinds of layer of the default model.\<close>

theorem layers_come_from_the_catalog_witness:
  "SqueezeNet_init None class_defined default_args =
     (class_defined(SqueezeNet_groups := butlast SqueezeNet_groups_table),
      Inr (built default_args SqueezeNet_groups_table))
   \<and> (\<exists>out. outputs (built default_args SqueezeNet_groups_table) = Some out
           \<and> layer_kinds out =
               {(''InputLayer'', None), (''Conv2D'', None), (''Conv2D'', Some ''relu''),
                (''ReLU'', None), (''MaxPooling2D'', None), (''Concatenate'', None),
                (''Dropout'', None), (''GlobalAveragePooling2D'', None),
                (''Activation'', Some ''softmax'')})"
  using layers_come_from_the_catalog [OF default_construction [of None]]
    default_construction [of None]
  by blast

text \<open>
  C1. For every construction that returns, the model takes the \<^verbatim>\<open>Input\<close> placeholder
  of the declared \<^verbatim>\<open>input_shape\<close>, and its output is an activation layer applied to a
  vector of exactly \<^verbatim>\<open>n_classes\<close> scores, with exactly \<^verbatim>\<open>n_classes\<close> entries itself
  (\<^verbatim>\<open>n_classes\<close> is at least 1); on every vector of that length the activation of that
  output layer gives \<^verbatim>\<open>n_classes\<close> values which sum to 1 (over the reals).
\<close>

theorem constructed_graph_outputs_class_probabilities:
  assumes "SqueezeNet_init cls hp a = (hp', Inr m)"
  shows "\<exists>inputs scores name out.
           model m = Some (inputs, out)
           \<and> inputs = Tensor InputLayer [] (input_shape a)
           \<and> out = Tensor (Activation name) [scores] [nat (n_classes a)]
           \<and> shape scores = [nat (n_classes a)]
           \<and> 0 < n_classes a
           \<and> (\<forall>v. length v = nat (n_classes a) \<longrightarrow>
                  length (activation_fn name v) = nat (n_classes a)
                  \<and> sum_list (activation_fn name v) = 1)"
proof -
  let ?gs = "hp (groups_ref a)"
  from assms have m: "m = built a ?gs" and n: "0 < n_classes a"
    unfolding SqueezeNet_init_eq_Inr by simp_all
  have o: "\<exists>scores. SqueezeNet_graph a ?gs =
                      Tensor (Activation ''softmax'') [scores] [nat (n_classes a)]
                    \<and> shape scores = [nat (n_classes a)]"
    by (simp add: SqueezeNet_graph_def classifier_graph_def Let_def)
  have s: "length (activation_fn ''softmax'' v) = nat (n_classes a)
           \<and> sum_list (activation_fn ''softmax'' v) = 1"
    if "length v = nat (n_classes a)" for v :: "real list"
  proof -
    from that n have "v \<noteq> []" by auto
    then have "sum_list (softmax_fn v) = 1" by (rule sum_list_softmax_fn)
    with that show ?thesis by (simp add: activation_fn_def softmax_fn_def)
  qed
  from o s n show ?thesis
    unfolding m model_built by blast
qed

text \<open>
  The default construction: an input of shape 224x224x3 and 1000 output entries, which
  sum to 1 on the scores that are all 0.
\<close>

theorem constructed_graph_outputs_class_probabilities_witness:
  "SqueezeNet_init None class_defined default_args =
     (class_defined(SqueezeNet_groups := butlast SqueezeNet_groups_table),
      Inr (built default_args SqueezeNet_groups_table))
   \<and> (\<exists>inputs scores name out.
         model (built default_args SqueezeNet_groups_table) = Some (inputs, out)
         \<and> inputs = Tensor InputLayer [] [224, 224, 3]
         \<and> out = Tensor (Activation name) [scores] [1000]
         \<and> shape scores = [1000]
         \<and> length (activation_fn name (replicate 1000 0)) = 1000
         \<and> sum_list (activation_fn name (replicate 1000 0)) = 1)"
proof -
  note r = default_construction [of None]
  have n: "nat (n_classes default_args) = 1000" and i: "input_shape default_args = [224, 224, 3]"
    by (simp_all add: default_args_def)
  from constructed_graph_outputs_class_probabilities [OF r] obtain inputs scores name out where
    h: "model (built default_args SqueezeNet_groups_table) = Some (inputs, out)"
       "inputs = Tensor InputLayer [] [224, 224, 3]"
       "out = Tensor (Activation name) [scores] [1000]"
       "shape scores = [1000]"
    and s: "\<forall>v. length v = (1000 :: nat) \<longrightarrow>
                 length (activation_fn name v) = 1000 \<and> sum_list (activation_fn name v) = 1"
    unfolding n i by blast
  from s have "length (activation_fn name (replicate 1000 0)) = 1000
               \<and> sum_list (activation_fn name (replicate 1000 0)) = 1"
    by simp
  with r h show ?thesis by blast
qed

text \<open>
  C6. The constructor takes the seven parameters \<^verbatim>\<open>groups\<close>, \<^verbatim>\<open>dropout\<close>,
  \<^verbatim>\<open>input_shape\<close>, \<^verbatim>\<open>n_classes\<close>, \<^verbatim>\<open>init_weights\<close>, \<^verbatim>\<open>reg\<close> and \<^verbatim>\<open>relu\<close>, with
  the defaults \<^verbatim>\<open>None\<close>, 0.5, (224, 224, 3), 1000, \<^verbatim>\<open>'glorot_uniform'\<close>,
  \<^verbatim>\<open>l2(0.001)\<close> and \<^verbatim>\<open>None\<close>, and the model of a construction that returns is
  configured by them and by nothing else:
  \<^item> \<^verbatim>\<open>groups\<close> is a list of groups, or \<^verbatim>\<open>None\<close> for the list of the class attribute,
    which holds the table [[16, 16, 32], [32, 48, 48, 64], [64]] when the class is
    defined; the fire blocks of the model are those of the list, as it is when the
    constructor is called: every block of the groups before the last, and the first
    block of the last;
  \<^item> \<^verbatim>\<open>dropout\<close> is the rate of the one dropout layer;
  \<^item> \<^verbatim>\<open>input_shape\<close> is the shape of the model's input;
  \<^item> \<^verbatim>\<open>n_classes\<close> is the length of the output;
  \<^item> \<^verbatim>\<open>init_weights\<close> is the initializer of the convolutions of the stem and of the
    classifier, while the fire blocks keep the class attribute \<^verbatim>\<open>'glorot_uniform'\<close>;
  \<^item> \<^verbatim>\<open>reg\<close> is the regularizer of every convolution;
  \<^item> \<^verbatim>\<open>relu\<close> reaches no layer in this file: it is handed to the base constructor,
    which keeps it on the instance;
  \<^item> the instance is the same for every value of the inherited class attribute and of
    the rest of the store.
\<close>

theorem parameters_configure_the_model:
  assumes "SqueezeNet_init cls hp a = (hp', Inr m)"
  shows "\<exists>inputs out.
           model m = Some (inputs, out)
           \<and> (if groups a = VNone then VRef SqueezeNet_groups else groups a) = VRef (groups_ref a)
           \<and> fire_blocks_of out =
               map block_filters (concat (butlast (hp (groups_ref a))))
               @ [block_filters (hd (last (hp (groups_ref a))))]
           \<and> dropout_rates out = [dropout a]
           \<and> inputs = Tensor InputLayer [] (input_shape a)
           \<and> shape out = [nat (n_classes a)]
           \<and> conv_initializers out = {Some (init_weights a), Some ''glorot_uniform''}
           \<and> conv_regularizers out = {reg a}
           \<and> self_relu m = relu a
           \<and> m = built a (hp (groups_ref a))
           \<and> default_args =
               \<lparr>groups = VNone, dropout = 0.5, input_shape = [224, 224, 3], n_classes = 1000,
                init_weights = ''glorot_uniform'', reg = Some (l2 0.001), relu = None\<rparr>
           \<and> class_defined SqueezeNet_groups =
               [[n_filters 16, n_filters 16, n_filters 32],
                [n_filters 32, n_filters 48, n_filters 48, n_filters 64],
                [n_filters 64]]"
proof -
  let ?gs = "hp (groups_ref a)"
  from assms have m: "m = built a ?gs"
    and g: "groups a = VNone \<or> groups a = VRef (groups_ref a)"
    unfolding SqueezeNet_init_eq_Inr by simp_all
  have s: "shape (SqueezeNet_graph a ?gs) = [nat (n_classes a)]"
    by (simp add: SqueezeNet_graph_def classifier_graph_def Let_def)
  have r: "self_relu (built a ?gs) = relu a"
    by (simp add: built_def Let_def)
  have d: "default_args =
               \<lparr>groups = VNone, dropout = 0.5, input_shape = [224, 224, 3], n_classes = 1000,
                init_weights = ''glorot_uniform'', reg = Some (l2 0.001), relu = None\<rparr>"
    by (simp add: default_args_def)
  have t: "class_defined SqueezeNet_groups =
               [[n_filters 16, n_filters 16, n_filters 32],
                [n_filters 32, n_filters 48, n_filters 48, n_filters 64],
                [n_filters 64]]"
    by (simp add: class_defined_def SqueezeNet_groups_table_def)
  show ?thesis
    unfolding m model_built
    using groups_resolved [OF g] s r d t
    by (simp add: fire_blocks_of_SqueezeNet_graph dropout_rates_SqueezeNet_graph
          conv_initializers_SqueezeNet_graph conv_regularizers_SqueezeNet_graph)
qed

text \<open>
  The construction with every parameter omitted, on the class as it is defined: an input
  of shape 224x224x3, the eight fire blocks of the class table, a dropout of rate 0.5,
  1000 outputs, \<^verbatim>\<open>'glorot_uniform'\<close> and \<^verbatim>\<open>l2(0.001)\<close> on every convolution, no clamp.
\<close>

theorem parameters_configure_the_model_witness:
  "SqueezeNet_init None class_defined default_args =
     (class_defined(SqueezeNet_groups := butlast SqueezeNet_groups_table),
      Inr (built default_args SqueezeNet_groups_table))
   \<and> (\<exists>inputs out.
         model (built default_args SqueezeNet_groups_table) = Some (inputs, out)
         \<and> inputs = Tensor InputLayer [] [224, 224, 3]
         \<and> fire_blocks_of out = [16, 16, 32, 32, 48, 48, 64, 64]
         \<and> dropout_rates out = [0.5]
         \<and> shape out = [1000]
         \<and> conv_initializers out = {Some ''glorot_uniform''}
         \<and> conv_regularizers out = {Some (l2 0.001)}
         \<and> self_relu (built default_args SqueezeNet_groups_table) = None)"
proof -
  note r = default_construction [of None]
  have g: "groups_ref default_args = SqueezeNet_groups"
    by (simp add: groups_ref_def default_args_def)
  have t: "class_defined SqueezeNet_groups = SqueezeNet_groups_table"
    by (simp add: class_defined_def)
  have b: "map block_filters (concat (butlast SqueezeNet_groups_table))
           @ [block_filters (hd (last SqueezeNet_groups_table))] =
           [16, 16, 32, 32, 48, 48, 64, 64]"
    by (simp add: SqueezeNet_groups_table_def block_filters_def n_filters_def)
  have a: "dropout default_args = 0.5" "input_shape default_args = [224, 224, 3]"
    "nat (n_classes default_args) = 1000" "init_weights default_args = ''glorot_uniform''"
    "reg default_args = Some (l2 0.001)" "relu default_args = None"
    by (simp_all add: default_args_def)
  from parameters_configure_the_model [OF r] obtain inputs out where
    "model (built default_args SqueezeNet_groups_table) = Some (inputs, out)"
    "inputs = Tensor InputLayer [] [224, 224, 3]"
    "fire_blocks_of out = [16, 16, 32, 32, 48, 48, 64, 64]"
    "dropout_rates out = [0.5]"
    "shape out = [1000]"
    "conv_initializers out = {Some ''glorot_uniform''}"
    "conv_regularizers out = {Some (l2 0.001)}"
    "self_relu (built default_args SqueezeNet_groups_table) = None"
    unfolding g t b a by auto
  with r show ?thesis by blast
qed

text \<open>
  C7, as the code has it. Let \<^verbatim>\<open>groups\<close> be \<^verbatim>\<open>None\<close>, a list of groups (lists of
  dictionaries), a flat list of dictionaries, a dictionary, a tuple, a string, a
  number or a regularizer, and let the other parameters have the types of the
  docstring. A construction that raises ends with an exception from inside the library,
  or with one that the Python of this file raises on \<^verbatim>\<open>groups\<close>: \<^verbatim>\<open>IndexError\<close>,
  \<^verbatim>\<open>KeyError('n_filters')\<close>, \<^verbatim>\<open>KeyError(0)\<close>, \<^verbatim>\<open>TypeError\<close> or
  \<^verbatim>\<open>AttributeError\<close>. It is \<^verbatim>\<open>IndexError\<close> only when the list that is popped is empty
  or, for a list of groups, its last group is empty; \<^verbatim>\<open>KeyError(0)\<close> only when
  \<^verbatim>\<open>groups\<close> is a flat list of dictionaries; \<^verbatim>\<open>AttributeError\<close> only when
  \<^verbatim>\<open>groups\<close> is given and has no \<^verbatim>\<open>pop\<close>.
\<close>

theorem construction_errors:
  assumes "SqueezeNet_init cls hp a = (hp', Inl e)"
  shows "ctor_error e
         \<and> (e = IndexError \<longrightarrow>
              (case groups a of VBlocks ds \<Rightarrow> ds = []
               | _ \<Rightarrow> hp (groups_ref a) = [] \<or> last (hp (groups_ref a)) = []))
         \<and> (e = KeyError (VInt 0) \<longrightarrow> (\<exists>ds. groups a = VBlocks ds))
         \<and> (e = AttributeError \<longrightarrow> \<not> has_pop (groups a) \<and> groups a \<noteq> VNone)"
  using SqueezeNet_init_error [OF assms] .

text \<open>
  With \<^verbatim>\<open>groups=[{'n_filters': 16}]\<close>, a flat list of one dictionary, the exception is
  the \<^verbatim>\<open>KeyError(0)\<close> of \<^verbatim>\<open>last[0]\<close>.
\<close>

theorem construction_errors_witness:
  "SqueezeNet_init None class_defined (default_args\<lparr>groups := VBlocks [n_filters 16]\<rparr>) =
     (class_defined, Inl (KeyError (VInt 0)))
   \<and> ctor_error (KeyError (VInt 0))
   \<and> (\<exists>ds. groups (default_args\<lparr>groups := VBlocks [n_filters 16]\<rparr>) = VBlocks ds)"
proof -
  have r: "SqueezeNet_init None class_defined (default_args\<lparr>groups := VBlocks [n_filters 16]\<rparr>)
          = (class_defined, Inl (KeyError (VInt 0)))"
    by (rule flat_list_of_one_block [where h = 224 and w = 224 and c = 3])
       (simp_all add: default_args_def keras_initializers_def)
  from construction_errors [OF r] r show ?thesis
    by simp
qed

text \<open>
  C7 as stated fails: with \<^verbatim>\<open>groups=[[]]\<close> the exception is the \<^verbatim>\<open>IndexError\<close> of
  \<^verbatim>\<open>last[0]\<close> in \<^verbatim>\<open>learner\<close> (line 104 of the source), not one from the library.
\<close>

theorem empty_last_group_raises_IndexError:
  "snd (SqueezeNet_init None (class_defined(1 := [[]])) (default_args\<lparr>groups := VRef 1\<rparr>))
     = Inl IndexError
   \<and> IndexError \<noteq> FrameworkError"
proof -
  have "SqueezeNet_init None (class_defined(1 := [[]])) (default_args\<lparr>groups := VRef 1\<rparr>)
          = ((class_defined(1 := [[]]))(1 := []), Inl IndexError)"
    by (rule last_group_empty [where h = 224 and w = 224 and c = 3])
       (simp_all add: default_args_def keras_initializers_def)
  then show ?thesis by simp
qed



end
